theory Spec2Isabelle
  imports Complex_Main "HOL-Library.Char_ord" "HOL-Library.List_Lexorder" "HOL-Library.Multiset"
begin

section \<open>The transcript and metadata cache of app/utils/transcript_cache.py\<close>

text \<open>
  The module has three classes: \<open>MemoryCacheBackend\<close> (an \<open>OrderedDict\<close> from key to
  \<open>(value, expiry)\<close> with a capacity), \<open>RedisCacheBackend\<close> (a client of an external
  store) and the facade \<open>TranscriptCache\<close>.

  Conventions of the embedding:
  \<^item> an \<open>OrderedDict[str, Tuple[Any, float]]\<close> is an association list, oldest entry
    first, whose keys are pairwise distinct (\<open>dict_inv\<close>);
  \<^item> every call of \<open>time.time()\<close> is an explicit argument \<open>now\<close>;
  \<^item> the type \<open>'t\<close> stands for the \<open>float\<close> values that clock readings and expiries
    are, ordered as Python's comparison orders them; the float arithmetic of the one sum
    \<open>time.time() + ttl_seconds\<close> is a parameter (\<open>float_ops\<close> below);
  \<^item> a call that can raise returns the exception raised, if any, together with the
    state it leaves behind: the object is mutated in place and stays as it is when the
    exception propagates;
  \<^item> calls of \<open>logger\<close> have no effect on any cache state and are left out.
\<close>

subsection \<open>Exceptions\<close>

datatype exn = KeyError | OverflowError | Exception string

subsection \<open>Float arithmetic\<close>

text \<open>
  \<open>time.time() + ttl_seconds\<close> adds an \<open>int\<close> to a \<open>float\<close>: the \<open>int\<close> is converted
  to \<open>float\<close>, which raises \<open>OverflowError\<close> when it is too large, and the two floats are
  added with the rounding of the float type. Both steps belong to the language, not to this
  module: they are a parameter, and every property below holds for all of its values.
\<close>

record 't float_ops =
  int_to_float :: "int \<Rightarrow> exn + 't"
  float_add :: "'t \<Rightarrow> 't \<Rightarrow> 't"

subsection \<open>OrderedDict\<close>

type_synonym ('v, 't) odict = "(string \<times> 'v \<times> 't) list"

definition dict_inv :: "('v, 't) odict \<Rightarrow> bool" where
  "dict_inv c = distinct (map fst c)"

text \<open>\<open>key in d\<close>\<close>

definition contains :: "('v, 't) odict \<Rightarrow> string \<Rightarrow> bool" where
  "contains c key = (key \<in> set (map fst c))"

text \<open>
  \<open>del d[key]\<close>, used by the source only under the guard \<open>key in d\<close>; the keys being
  distinct, exactly one entry goes (\<open>length_del_inv\<close> below).
\<close>

definition dict_del :: "('v, 't) odict \<Rightarrow> string \<Rightarrow> ('v, 't) odict" where
  "dict_del c key = filter (\<lambda>e. fst e \<noteq> key) c"

text \<open>
  \<open>d[key] = x\<close>: an existing key keeps its position and gets the new item, a new key is
  appended at the most-recent end.
\<close>

definition dict_setitem :: "('v, 't) odict \<Rightarrow> string \<Rightarrow> 'v \<times> 't \<Rightarrow> ('v, 't) odict" where
  "dict_setitem c key x =
     (if contains c key then map (\<lambda>e. if fst e = key then (key, x) else e) c
      else c @ [(key, x)])"

text \<open>
  \<open>d.move_to_end(key)\<close> for a key whose item \<open>x\<close> has just been read under the guard
  \<open>key in d\<close>.
\<close>

definition move_to_end :: "('v, 't) odict \<Rightarrow> string \<Rightarrow> 'v \<times> 't \<Rightarrow> ('v, 't) odict" where
  "move_to_end c key x = dict_del c key @ [(key, x)]"

text \<open>\<open>d.popitem(last=False)\<close>: drops the oldest entry; \<open>KeyError\<close> on an empty dict.\<close>

definition popitem_first :: "('v, 't) odict \<Rightarrow> exn + ('v, 't) odict" where
  "popitem_first c = (case c of [] \<Rightarrow> Inl KeyError | _ # c' \<Rightarrow> Inr c')"

subsection \<open>MemoryCacheBackend\<close>

record ('v, 't) MemoryCacheBackend =
  cache :: "('v, 't) odict"
  max_size :: int

definition MemoryCacheBackend_init :: "int \<Rightarrow> ('v, 't) MemoryCacheBackend" where
  "MemoryCacheBackend_init m = \<lparr>cache = [], max_size = m\<rparr>"

text \<open>
  \<open>get\<close>: a miss for an absent key; an entry with \<open>now > expiry\<close> is deleted and
  reported as a miss; otherwise the entry moves to the most-recent end.
\<close>

definition get_mem ::
  "('v, 't::linorder) MemoryCacheBackend \<Rightarrow> string \<Rightarrow> 't \<Rightarrow>
     'v option \<times> ('v, 't) MemoryCacheBackend" where
  "get_mem b key now =
     (case map_of (cache b) key of
        None \<Rightarrow> (None, b)
      | Some (v, expiry) \<Rightarrow>
          if now > expiry then (None, b\<lparr>cache := dict_del (cache b) key\<rparr>)
          else (Some v, b\<lparr>cache := move_to_end (cache b) key (v, expiry)\<rparr>))"

text \<open>
  The loop \<open>while len(self._cache) >= self.max_size: self._cache.popitem(last=False)\<close>.
  It returns the exception that ends it, if any, and the dictionary as the loop leaves it.
\<close>

function evict_loop :: "('v, 't) odict \<Rightarrow> int \<Rightarrow> exn option \<times> ('v, 't) odict" where
  "evict_loop c m =
     (if int (length c) \<ge> m then
        (case popitem_first c of Inl e \<Rightarrow> (Some e, c) | Inr c' \<Rightarrow> evict_loop c' m)
      else (None, c))"
  by pat_completeness auto
termination
  by (relation "measure (\<lambda>(c, m). length c)")
     (auto simp: popitem_first_def split: list.splits)

text \<open>
  \<open>set\<close>: delete the key if present, evict, read the clock, add the time to live, store.
  An exception of the eviction loop or of the sum leaves the dictionary as the steps before
  it made it.
\<close>

definition set_mem ::
  "'t float_ops \<Rightarrow> ('v, 't) MemoryCacheBackend \<Rightarrow> string \<Rightarrow> 'v \<Rightarrow> int \<Rightarrow> 't \<Rightarrow>
     exn option \<times> ('v, 't) MemoryCacheBackend" where
  "set_mem fl b key v ttl_seconds now =
     (let c1 = (if contains (cache b) key then dict_del (cache b) key else cache b) in
      case evict_loop c1 (max_size b) of
        (Some e, c2) \<Rightarrow> (Some e, b\<lparr>cache := c2\<rparr>)
      | (None, c2) \<Rightarrow>
          (case int_to_float fl ttl_seconds of
             Inl e \<Rightarrow> (Some e, b\<lparr>cache := c2\<rparr>)
           | Inr ttl \<Rightarrow>
               (let expiry = float_add fl now ttl
                in (None, b\<lparr>cache := dict_setitem c2 key (v, expiry)\<rparr>))))"

definition delete_mem ::
  "('v, 't) MemoryCacheBackend \<Rightarrow> string \<Rightarrow> ('v, 't) MemoryCacheBackend" where
  "delete_mem b key =
     (if contains (cache b) key then b\<lparr>cache := dict_del (cache b) key\<rparr> else b)"

definition clear_mem :: "('v, 't) MemoryCacheBackend \<Rightarrow> ('v, 't) MemoryCacheBackend" where
  "clear_mem b = b\<lparr>cache := []\<rparr>"

definition size_mem :: "('v, 't) MemoryCacheBackend \<Rightarrow> int" where
  "size_mem b = int (length (cache b))"

text \<open>
  What \<open>size()\<close> is bounded by, together with the representation invariant of the
  dictionary.
\<close>

definition mem_ok :: "('v, 't) MemoryCacheBackend \<Rightarrow> bool" where
  "mem_ok b = (size_mem b \<le> max_size b \<and> dict_inv (cache b))"

text \<open>
  A finite sequence of backend calls, each with the clock reading it sees, and what each
  call gives its caller: the value or miss of a \<open>get\<close>, a normal return, or an exception.
  A caller that catches an exception goes on with the same object, so the run goes on with
  the state the failed call left.
\<close>

datatype ('v, 't) mem_op =
    Get string 't
  | Set string 'v int 't
  | Delete string
  | Clear

datatype 'v mem_result = Got "'v option" | Done | Raised exn

fun apply_mem_op ::
  "'t float_ops \<Rightarrow> ('v, 't::linorder) MemoryCacheBackend \<Rightarrow> ('v, 't) mem_op \<Rightarrow>
     'v mem_result \<times> ('v, 't) MemoryCacheBackend" where
  "apply_mem_op fl b (Get key now) = (case get_mem b key now of (v, b') \<Rightarrow> (Got v, b'))"
| "apply_mem_op fl b (Set key v ttl now) =
     (case set_mem fl b key v ttl now of
        (Some e, b') \<Rightarrow> (Raised e, b')
      | (None, b') \<Rightarrow> (Done, b'))"
| "apply_mem_op fl b (Delete key) = (Done, delete_mem b key)"
| "apply_mem_op fl b Clear = (Done, clear_mem b)"

fun run_mem_ops ::
  "'t float_ops \<Rightarrow> ('v, 't::linorder) MemoryCacheBackend \<Rightarrow> ('v, 't) mem_op list \<Rightarrow>
     'v mem_result list \<times> ('v, 't) MemoryCacheBackend" where
  "run_mem_ops fl b [] = ([], b)"
| "run_mem_ops fl b (x # xs) =
     (case apply_mem_op fl b x of
        (res, b') \<Rightarrow> (case run_mem_ops fl b' xs of (ress, b'') \<Rightarrow> (res # ress, b'')))"

subsection \<open>RedisCacheBackend\<close>

text \<open>
  The \<open>redis\<close> client and \<open>json\<close> are not code of this module: they are a parameter.
  \<open>'r\<close> is the state of the connection and of the store behind it; every call returns
  its outcome (the exception raised, or the value) and the state afterwards.
  \<open>from_url\<close> stands for \<open>import redis; redis.from_url(url, decode_responses=True)\<close>.
  \<open>json_loads\<close> returns \<open>None\<close> for the JSON text \<open>null\<close>.
\<close>

record ('r, 'v) redis_lib =
  from_url :: "string \<Rightarrow> exn + 'r"
  ping :: "'r \<Rightarrow> (exn + unit) \<times> 'r"
  redis_get :: "'r \<Rightarrow> string \<Rightarrow> (exn + string option) \<times> 'r"
  redis_setex :: "'r \<Rightarrow> string \<Rightarrow> int \<Rightarrow> string \<Rightarrow> (exn + unit) \<times> 'r"
  redis_delete :: "'r \<Rightarrow> string list \<Rightarrow> (exn + unit) \<times> 'r"
  redis_scan :: "'r \<Rightarrow> int \<Rightarrow> string \<Rightarrow> int \<Rightarrow> (exn + int \<times> string list) \<times> 'r"
  json_loads :: "string \<Rightarrow> exn + 'v option"
  json_dumps :: "'v \<Rightarrow> exn + string"

record 'r RedisCacheBackend =
  redis :: 'r
  prefix :: string

text \<open>The constructor connects, sets the prefix, pings, and re-raises any failure.\<close>

definition RedisCacheBackend_init ::
  "('r, 'v) redis_lib \<Rightarrow> string \<Rightarrow> exn + 'r RedisCacheBackend" where
  "RedisCacheBackend_init lib redis_url =
     (case from_url lib redis_url of
        Inl e \<Rightarrow> Inl e
      | Inr r \<Rightarrow>
          (case ping lib r of
             (Inl e, _) \<Rightarrow> Inl e
           | (Inr _, r') \<Rightarrow> Inr \<lparr>redis = r', prefix = ''ytcache:''\<rparr>))"

definition make_key :: "'r RedisCacheBackend \<Rightarrow> string \<Rightarrow> string" where
  "make_key b key = prefix b @ key"

definition get_redis ::
  "('r, 'v) redis_lib \<Rightarrow> 'r RedisCacheBackend \<Rightarrow> string \<Rightarrow> 'v option \<times> 'r RedisCacheBackend" where
  "get_redis lib b key =
     (case redis_get lib (redis b) (make_key b key) of
        (Inl e, r') \<Rightarrow> (None, b\<lparr>redis := r'\<rparr>)
      | (Inr None, r') \<Rightarrow> (None, b\<lparr>redis := r'\<rparr>)
      | (Inr (Some s), r') \<Rightarrow>
          (case json_loads lib s of
             Inl e \<Rightarrow> (None, b\<lparr>redis := r'\<rparr>)
           | Inr v \<Rightarrow> (v, b\<lparr>redis := r'\<rparr>)))"

definition set_redis ::
  "('r, 'v) redis_lib \<Rightarrow> 'r RedisCacheBackend \<Rightarrow> string \<Rightarrow> 'v \<Rightarrow> int \<Rightarrow> 'r RedisCacheBackend" where
  "set_redis lib b key v ttl_seconds =
     (case json_dumps lib v of
        Inl e \<Rightarrow> b
      | Inr s \<Rightarrow> b\<lparr>redis := snd (redis_setex lib (redis b) (make_key b key) ttl_seconds s)\<rparr>)"

definition delete_redis ::
  "('r, 'v) redis_lib \<Rightarrow> 'r RedisCacheBackend \<Rightarrow> string \<Rightarrow> 'r RedisCacheBackend" where
  "delete_redis lib b key = b\<lparr>redis := snd (redis_delete lib (redis b) [make_key b key])\<rparr>"

text \<open>
  The two scans are \<open>while True\<close> loops that stop when the store returns cursor 0 or a
  call raises; a store that never does either keeps them running, which is the value
  \<open>None\<close> below.
\<close>

partial_function (option) clear_redis_loop ::
  "('r, 'v) redis_lib \<Rightarrow> string \<Rightarrow> 'r \<Rightarrow> int \<Rightarrow> 'r option" where
  "clear_redis_loop lib pat r cursor =
     (case redis_scan lib r cursor pat 100 of
        (Inl e, r1) \<Rightarrow> Some r1
      | (Inr (cursor', keys), r1) \<Rightarrow>
          (case (if keys \<noteq> [] then redis_delete lib r1 keys else (Inr (), r1)) of
             (Inl e, r2) \<Rightarrow> Some r2
           | (Inr _, r2) \<Rightarrow>
               if cursor' = 0 then Some r2 else clear_redis_loop lib pat r2 cursor'))"

definition clear_redis ::
  "('r, 'v) redis_lib \<Rightarrow> 'r RedisCacheBackend \<Rightarrow> 'r RedisCacheBackend option" where
  "clear_redis lib b =
     map_option (\<lambda>r'. b\<lparr>redis := r'\<rparr>) (clear_redis_loop lib (prefix b @ ''*'') (redis b) 0)"

partial_function (option) size_redis_loop ::
  "('r, 'v) redis_lib \<Rightarrow> string \<Rightarrow> 'r \<Rightarrow> int \<Rightarrow> int \<Rightarrow> (int \<times> 'r) option" where
  "size_redis_loop lib pat r cursor key_count =
     (case redis_scan lib r cursor pat 100 of
        (Inl e, r1) \<Rightarrow> Some (0, r1)
      | (Inr (cursor', keys), r1) \<Rightarrow>
          if cursor' = 0 then Some (key_count + int (length keys), r1)
          else size_redis_loop lib pat r1 cursor' (key_count + int (length keys)))"

definition size_redis ::
  "('r, 'v) redis_lib \<Rightarrow> 'r RedisCacheBackend \<Rightarrow> (int \<times> 'r RedisCacheBackend) option" where
  "size_redis lib b =
     map_option (\<lambda>(n, r'). (n, b\<lparr>redis := r'\<rparr>))
       (size_redis_loop lib (prefix b @ ''*'') (redis b) 0 0)"

subsection \<open>Cached values\<close>

text \<open>
  A transcript snippet reaches \<open>TranscriptCache.set\<close> either as an object with the
  attributes \<open>text\<close>, \<open>start\<close>, \<open>duration\<close> or as a mapping; both are stored as a
  mapping with these three entries. Metadata is an arbitrary dictionary \<open>'m\<close>.
\<close>

record Transcript =
  snippet_text :: string
  start :: real
  duration :: real

datatype segment = SnippetObject string real real | SnippetDict Transcript

fun segment_to_dict :: "segment \<Rightarrow> Transcript" where
  "segment_to_dict (SnippetObject t s d) = \<lparr>snippet_text = t, start = s, duration = d\<rparr>"
| "segment_to_dict (SnippetDict t) = t"

datatype 'm cache_value = TranscriptData "Transcript list" | Metadata 'm

subsection \<open>TranscriptCache, the facade\<close>

record Settings =
  CACHE_ENABLED :: bool
  CACHE_TTL_SECONDS :: int
  CACHE_MAX_SIZE :: int
  CACHE_BACKEND :: string
  REDIS_URL :: string

datatype ('m, 't, 'r) CacheBackend =
    Memory "('m cache_value, 't) MemoryCacheBackend"
  | Redis "'r RedisCacheBackend"

text \<open>
  The attribute \<open>max_size\<close> of the facade is the field \<open>facade_max_size\<close>, the name
  \<open>max_size\<close> being the backend's; \<open>backend\<close> is \<open>_backend\<close>.
\<close>

record ('m, 't, 'r) TranscriptCache =
  enabled :: bool
  ttl_seconds :: int
  facade_max_size :: int
  backend_type :: string
  backend :: "('m, 't, 'r) CacheBackend option"

definition TranscriptCache_init ::
  "('r, 'm cache_value) redis_lib \<Rightarrow> Settings \<Rightarrow> ('m, 't, 'r) TranscriptCache" where
  "TranscriptCache_init lib settings =
     (let self = \<lparr>enabled = CACHE_ENABLED settings,
                  ttl_seconds = CACHE_TTL_SECONDS settings,
                  facade_max_size = CACHE_MAX_SIZE settings,
                  backend_type = CACHE_BACKEND settings,
                  backend = None\<rparr>
      in if \<not> enabled self then self\<lparr>backend := None\<rparr>
         else if backend_type self = ''redis'' then
           (case RedisCacheBackend_init lib (REDIS_URL settings) of
              Inr rb \<Rightarrow> self\<lparr>backend := Some (Redis rb)\<rparr>
            | Inl e \<Rightarrow>
                self\<lparr>backend := Some (Memory (MemoryCacheBackend_init (facade_max_size self))),
                     backend_type := ''memory''\<rparr>)
         else self\<lparr>backend := Some (Memory (MemoryCacheBackend_init (facade_max_size self)))\<rparr>)"

text \<open>\<open>",".join(xs)\<close>\<close>

fun join :: "string \<Rightarrow> string list \<Rightarrow> string" where
  "join sep [] = []"
| "join sep [x] = x"
| "join sep (x # y # ys) = x @ sep @ join sep (y # ys)"

text \<open>
  \<open>sorted\<close> on \<open>str\<close> is the lexicographic order on code points, here the order of
  \<open>char list\<close>; \<open>if languages\<close> is false for \<open>None\<close> and for the empty list.
\<close>

definition make_transcript_key :: "string \<Rightarrow> string list option \<Rightarrow> string" where
  "make_transcript_key video_id languages =
     (let lang_str = (case languages of
                        None \<Rightarrow> ''en''
                      | Some ls \<Rightarrow> if ls \<noteq> [] then join '','' (sort ls) else ''en'')
      in ''transcript:'' @ video_id @ '':'' @ lang_str)"

definition make_metadata_key :: "string \<Rightarrow> string" where
  "make_metadata_key video_id = ''metadata:'' @ video_id"

text \<open>Dispatch of \<open>self._backend.get\<close> and \<open>self._backend.set\<close> on the backend's class.\<close>

fun backend_get ::
  "('r, 'm cache_value) redis_lib \<Rightarrow> ('m, 't::linorder, 'r) CacheBackend \<Rightarrow> string \<Rightarrow> 't \<Rightarrow>
     'm cache_value option \<times> ('m, 't, 'r) CacheBackend" where
  "backend_get lib (Memory b) key now = (case get_mem b key now of (v, b') \<Rightarrow> (v, Memory b'))"
| "backend_get lib (Redis b) key now = (case get_redis lib b key of (v, b') \<Rightarrow> (v, Redis b'))"

fun backend_set ::
  "'t float_ops \<Rightarrow> ('r, 'm cache_value) redis_lib \<Rightarrow> ('m, 't, 'r) CacheBackend \<Rightarrow> string \<Rightarrow>
     'm cache_value \<Rightarrow> int \<Rightarrow> 't \<Rightarrow> exn option \<times> ('m, 't, 'r) CacheBackend" where
  "backend_set fl lib (Memory b) key v ttl now =
     (case set_mem fl b key v ttl now of (e, b') \<Rightarrow> (e, Memory b'))"
| "backend_set fl lib (Redis b) key v ttl now = (None, Redis (set_redis lib b key v ttl))"

definition get_facade ::
  "('r, 'm cache_value) redis_lib \<Rightarrow> ('m, 't::linorder, 'r) TranscriptCache \<Rightarrow> string \<Rightarrow>
     string list option \<Rightarrow> 't \<Rightarrow> 'm cache_value option \<times> ('m, 't, 'r) TranscriptCache" where
  "get_facade lib self video_id languages now =
     (if \<not> enabled self \<or> backend self = None then (None, self)
      else case backend self of
        Some be \<Rightarrow>
          (case backend_get lib be (make_transcript_key video_id languages) now of
             (v, be') \<Rightarrow> (v, self\<lparr>backend := Some be'\<rparr>)))"

definition set_facade ::
  "'t float_ops \<Rightarrow> ('r, 'm cache_value) redis_lib \<Rightarrow> ('m, 't, 'r) TranscriptCache \<Rightarrow> string \<Rightarrow>
     segment list \<Rightarrow> string list option \<Rightarrow> 't \<Rightarrow> exn option \<times> ('m, 't, 'r) TranscriptCache" where
  "set_facade fl lib self video_id transcript languages now =
     (if \<not> enabled self \<or> backend self = None then (None, self)
      else case backend self of
        Some be \<Rightarrow>
          (let key = make_transcript_key video_id languages;
               transcript_data = map segment_to_dict transcript
           in case backend_set fl lib be key (TranscriptData transcript_data)
                     (ttl_seconds self) now of
                (e, be') \<Rightarrow> (e, self\<lparr>backend := Some be'\<rparr>)))"

definition get_metadata ::
  "('r, 'm cache_value) redis_lib \<Rightarrow> ('m, 't::linorder, 'r) TranscriptCache \<Rightarrow> string \<Rightarrow> 't \<Rightarrow>
     'm cache_value option \<times> ('m, 't, 'r) TranscriptCache" where
  "get_metadata lib self video_id now =
     (if \<not> enabled self \<or> backend self = None then (None, self)
      else case backend self of
        Some be \<Rightarrow>
          (case backend_get lib be (make_metadata_key video_id) now of
             (v, be') \<Rightarrow> (v, self\<lparr>backend := Some be'\<rparr>)))"

definition set_metadata ::
  "'t float_ops \<Rightarrow> ('r, 'm cache_value) redis_lib \<Rightarrow> ('m, 't, 'r) TranscriptCache \<Rightarrow> string \<Rightarrow>
     'm \<Rightarrow> 't \<Rightarrow> exn option \<times> ('m, 't, 'r) TranscriptCache" where
  "set_metadata fl lib self video_id metadata now =
     (if \<not> enabled self \<or> backend self = None then (None, self)
      else case backend self of
        Some be \<Rightarrow>
          (case backend_set fl lib be (make_metadata_key video_id) (Metadata metadata)
                  (ttl_seconds self) now of
             (e, be') \<Rightarrow> (e, self\<lparr>backend := Some be'\<rparr>)))"

text \<open>\<open>clear\<close> and \<open>size\<close> test only \<open>_backend\<close>, not \<open>enabled\<close>.\<close>

definition clear_facade ::
  "('r, 'm cache_value) redis_lib \<Rightarrow> ('m, 't, 'r) TranscriptCache \<Rightarrow>
     ('m, 't, 'r) TranscriptCache option" where
  "clear_facade lib self =
     (case backend self of
        None \<Rightarrow> Some self
      | Some (Memory b) \<Rightarrow> Some (self\<lparr>backend := Some (Memory (clear_mem b))\<rparr>)
      | Some (Redis b) \<Rightarrow>
          map_option (\<lambda>b'. self\<lparr>backend := Some (Redis b')\<rparr>) (clear_redis lib b))"

definition size_facade ::
  "('r, 'm cache_value) redis_lib \<Rightarrow> ('m, 't, 'r) TranscriptCache \<Rightarrow>
     (int \<times> ('m, 't, 'r) TranscriptCache) option" where
  "size_facade lib self =
     (case backend self of
        None \<Rightarrow> Some (0, self)
      | Some (Memory b) \<Rightarrow> Some (size_mem b, self)
      | Some (Redis b) \<Rightarrow>
          map_option (\<lambda>(n, b'). (n, self\<lparr>backend := Some (Redis b')\<rparr>)) (size_redis lib b))"

text \<open>
  The scan of \<open>cleanup_expired\<close> over \<open>keys_to_check\<close>. It reads the clock once for each
  key still present: \<open>clock i\<close> is the reading of the \<open>i\<close>-th such test.
\<close>

fun cleanup_loop ::
  "string list \<Rightarrow> (nat \<Rightarrow> 't::linorder) \<Rightarrow> nat \<Rightarrow> ('v, 't) odict \<Rightarrow> int \<Rightarrow>
     ('v, 't) odict \<times> int" where
  "cleanup_loop [] clock i c expired_count = (c, expired_count)"
| "cleanup_loop (key # keys) clock i c expired_count =
     (case map_of c key of
        None \<Rightarrow> cleanup_loop keys clock i c expired_count
      | Some (_, expiry) \<Rightarrow>
          if clock i > expiry
          then cleanup_loop keys clock (Suc i) (dict_del c key) (expired_count + 1)
          else cleanup_loop keys clock (Suc i) c expired_count)"

definition cleanup_expired ::
  "('m, 't::linorder, 'r) TranscriptCache \<Rightarrow> (nat \<Rightarrow> 't) \<Rightarrow>
     int \<times> ('m, 't, 'r) TranscriptCache" where
  "cleanup_expired self clock =
     (if \<not> enabled self \<or> backend self = None then (0, self)
      else case backend self of
        Some (Memory b) \<Rightarrow>
          (let keys_to_check = map fst (cache b) in
           case cleanup_loop keys_to_check clock 0 (cache b) 0 of
             (c', expired_count) \<Rightarrow>
               (expired_count, self\<lparr>backend := Some (Memory (b\<lparr>cache := c'\<rparr>))\<rparr>))
      | Some (Redis b) \<Rightarrow> (0, self))"

text \<open>
  The entries of a dictionary paired with the clock readings of their tests, the first
  entry tested at reading \<open>i\<close>, and whether an entry is expired at its reading.
\<close>

definition readings :: "(nat \<Rightarrow> 't) \<Rightarrow> nat \<Rightarrow> ('v, 't) odict \<Rightarrow> ('t \<times> string \<times> 'v \<times> 't) list" where
  "readings clock i c = map (\<lambda>(j, e). (clock j, e)) (enumerate i c)"

definition expired_at :: "('t::linorder) \<times> string \<times> 'v \<times> 't \<Rightarrow> bool" where
  "expired_at re = (fst re > snd (snd (snd re)))"

text \<open>
  A finite sequence of transcript and metadata calls on the facade, with their results; as
  for the backend, the run goes on after a call that raised.
\<close>

datatype ('m, 't) facade_op =
    GetTranscript string "string list option" 't
  | SetTranscript string "segment list" "string list option" 't
  | GetMetadata string 't
  | SetMetadata string 'm 't

datatype 'm facade_result = Returned "'m cache_value option" | Stored | Failed exn

fun apply_facade_op ::
  "'t float_ops \<Rightarrow> ('r, 'm cache_value) redis_lib \<Rightarrow> ('m, 't::linorder, 'r) TranscriptCache \<Rightarrow>
     ('m, 't) facade_op \<Rightarrow> 'm facade_result \<times> ('m, 't, 'r) TranscriptCache" where
  "apply_facade_op fl lib self (GetTranscript video_id languages now) =
     (case get_facade lib self video_id languages now of (v, self') \<Rightarrow> (Returned v, self'))"
| "apply_facade_op fl lib self (SetTranscript video_id transcript languages now) =
     (case set_facade fl lib self video_id transcript languages now of
        (Some e, self') \<Rightarrow> (Failed e, self')
      | (None, self') \<Rightarrow> (Stored, self'))"
| "apply_facade_op fl lib self (GetMetadata video_id now) =
     (case get_metadata lib self video_id now of (v, self') \<Rightarrow> (Returned v, self'))"
| "apply_facade_op fl lib self (SetMetadata video_id metadata now) =
     (case set_metadata fl lib self video_id metadata now of
        (Some e, self') \<Rightarrow> (Failed e, self')
      | (None, self') \<Rightarrow> (Stored, self'))"

fun run_facade_ops ::
  "'t float_ops \<Rightarrow> ('r, 'm cache_value) redis_lib \<Rightarrow> ('m, 't::linorder, 'r) TranscriptCache \<Rightarrow>
     ('m, 't) facade_op list \<Rightarrow> 'm facade_result list \<times> ('m, 't, 'r) TranscriptCache" where
  "run_facade_ops fl lib self [] = ([], self)"
| "run_facade_ops fl lib self (x # xs) =
     (case apply_facade_op fl lib self x of
        (res, self') \<Rightarrow>
          (case run_facade_ops fl lib self' xs of
             (ress, self'') \<Rightarrow> (res # ress, self'')))"

subsection \<open>Values for the examples\<close>

text \<open>
  A client library with no reachable store: every call raises.
\<close>

definition unreachable_lib :: "(unit, 'v) redis_lib" where
  "unreachable_lib =
     \<lparr>from_url = (\<lambda>url. Inl (Exception ''Connection refused'')),
      ping = (\<lambda>r. (Inl (Exception ''Connection refused''), r)),
      redis_get = (\<lambda>r key. (Inl (Exception ''Connection refused''), r)),
      redis_setex = (\<lambda>r key ttl s. (Inl (Exception ''Connection refused''), r)),
      redis_delete = (\<lambda>r keys. (Inl (Exception ''Connection refused''), r)),
      redis_scan = (\<lambda>r cursor pat n. (Inl (Exception ''Connection refused''), r)),
      json_loads = (\<lambda>s. Inl (Exception ''JSONDecodeError'')),
      json_dumps = (\<lambda>v. Inl (Exception ''TypeError''))\<rparr>"

text \<open>
  Float arithmetic for the examples. On integers of absolute value below \<open>2^53\<close> the
  conversion to a double and the sum of two doubles are exact, as long as the sum stays in
  that range, and the examples use only such values; the conversion of an \<open>int\<close> from
  \<open>2^1024\<close> on raises \<open>OverflowError\<close>, such a value being beyond every double.
  Elsewhere this instance is exact arithmetic and no model of doubles.
\<close>

definition small_float_ops :: "real float_ops" where
  "small_float_ops =
     \<lparr>int_to_float = (\<lambda>n. if \<bar>n\<bar> \<ge> 2 ^ 1024 then Inl OverflowError else Inr (real_of_int n)),
      float_add = (\<lambda>x y. x + y)\<rparr>"

text \<open>A clock that advances by one second from one reading to the next, starting at 10.\<close>

definition ticking_clock :: "nat \<Rightarrow> real" where
  "ticking_clock i = 10 + real i"

section \<open>Properties of the memory backend\<close>

lemma small_float_ops_simps:
  "\<bar>n\<bar> < 2 ^ 1024 \<Longrightarrow> int_to_float small_float_ops n = Inr (real_of_int n)"
  "\<bar>n\<bar> \<ge> 2 ^ 1024 \<Longrightarrow> int_to_float small_float_ops n = Inl OverflowError"
  "float_add small_float_ops x y = x + y"
  by (simp_all add: small_float_ops_def)

subsection \<open>The dictionary operations\<close>

lemma dict_inv_del: "dict_inv c \<Longrightarrow> dict_inv (dict_del c k)"
  by (simp add: dict_inv_def dict_del_def distinct_map_filter)

lemma contains_del: "\<not> contains (dict_del c k) k"
  by (auto simp: contains_def dict_del_def)

lemma dict_inv_drop: "dict_inv c \<Longrightarrow> dict_inv (drop n c)"
  by (simp add: dict_inv_def drop_map [symmetric] distinct_drop del: drop_map)

lemma contains_drop: "\<not> contains c k \<Longrightarrow> \<not> contains (drop n c) k"
  by (auto simp: contains_def dest: in_set_dropD)

lemma dict_setitem_new: "\<not> contains c k \<Longrightarrow> dict_setitem c k x = c @ [(k, x)]"
  by (simp add: dict_setitem_def)

lemma dict_inv_snoc: "dict_inv c \<Longrightarrow> \<not> contains c k \<Longrightarrow> dict_inv (c @ [(k, x)])"
  by (simp add: dict_inv_def contains_def)

lemma dict_del_absent: "\<not> contains c k \<Longrightarrow> dict_del c k = c"
  by (auto simp: contains_def dict_del_def filter_id_conv)

lemma map_of_contains: "map_of c k = Some x \<Longrightarrow> contains c k"
  by (auto simp: contains_def dest: map_of_SomeD intro: rev_image_eqI)

lemma map_of_not_contains: "map_of c k = None \<Longrightarrow> \<not> contains c k"
  by (simp add: contains_def map_of_eq_None_iff)

lemma length_del_le: "length (dict_del c k) \<le> length c"
  by (simp add: dict_del_def)

lemma length_del_present: "contains c k \<Longrightarrow> length (dict_del c k) < length c"
proof -
  assume "contains c k"
  then obtain e where "e \<in> set c" "fst e = k" by (auto simp: contains_def)
  then show ?thesis unfolding dict_del_def by (intro length_filter_less [of e]) simp_all
qed

lemma length_del_inv:
  "dict_inv c \<Longrightarrow> contains c k \<Longrightarrow> Suc (length (dict_del c k)) = length c"
proof (induction c)
  case Nil
  then show ?case by (simp add: contains_def)
next
  case (Cons e c)
  show ?case
  proof (cases "fst e = k")
    case True
    with Cons.prems(1) have "\<not> contains c k" by (simp add: dict_inv_def contains_def)
    then have "dict_del c k = c" by (rule dict_del_absent)
    with True show ?thesis by (simp add: dict_del_def)
  next
    case False
    with Cons.prems have "dict_inv c" "contains c k" by (auto simp: dict_inv_def contains_def)
    from Cons.IH [OF this] False show ?thesis by (simp add: dict_del_def)
  qed
qed

lemma map_of_snoc_new:
  "\<not> contains c k \<Longrightarrow> map_of (c @ [(k, x)]) k = Some x"
  by (simp add: contains_def map_add_def map_of_eq_None_iff [THEN iffD2])

lemma map_of_del_other: "k' \<noteq> k \<Longrightarrow> map_of (dict_del c k) k' = map_of c k'"
  by (induction c) (auto simp: dict_del_def)

lemma map_of_del_same: "map_of (dict_del c k) k = None"
  using contains_del [of c k] by (simp add: contains_def map_of_eq_None_iff)

lemma map_of_move_to_end:
  assumes "map_of c k = Some x"
  shows "map_of (move_to_end c k x) = map_of c"
proof
  fix k'
  show "map_of (move_to_end c k x) k' = map_of c k'"
  proof (cases "k' = k")
    case True
    have "map_of (dict_del c k @ [(k, x)]) k = Some x"
      by (rule map_of_snoc_new) (rule contains_del)
    with True assms show ?thesis by (simp add: move_to_end_def)
  next
    case False
    then show ?thesis
      by (simp add: move_to_end_def map_add_def map_of_del_other split: option.splits)
  qed
qed

subsection \<open>The eviction loop\<close>

declare evict_loop.simps [simp del]

lemma evict_loop_ok:
  "1 \<le> m \<Longrightarrow> evict_loop c m = (None, drop (length c - nat (m - 1)) c)"
proof (induction c m rule: evict_loop.induct)
  case (1 c m)
  show ?case
  proof (cases c)
    case Nil
    with 1(2) show ?thesis by (simp add: evict_loop.simps)
  next
    case (Cons x c')
    show ?thesis
    proof (cases "int (length c) \<ge> m")
      case True
      have pf: "popitem_first c = Inr c'" using Cons by (simp add: popitem_first_def)
      have "evict_loop c m = evict_loop c' m"
        using True pf by (subst evict_loop.simps) simp
      also have "\<dots> = (None, drop (length c' - nat (m - 1)) c')"
        using 1(1)[OF True pf] 1(2) by simp
      also have "drop (length c' - nat (m - 1)) c' = drop (length c - nat (m - 1)) c"
        using True Cons 1(2) by (simp add: Suc_diff_le nat_le_iff)
      finally show ?thesis .
    next
      case False
      then have "length c - nat (m - 1) = 0" by simp
      with False show ?thesis by (subst evict_loop.simps) simp
    qed
  qed
qed

lemma evict_loop_raises:
  "m \<le> 0 \<Longrightarrow> evict_loop c m = (Some KeyError, [])"
proof (induction c)
  case Nil
  then show ?case by (subst evict_loop.simps) (simp add: popitem_first_def)
next
  case (Cons x c)
  then show ?case by (subst evict_loop.simps) (simp add: popitem_first_def)
qed

subsection \<open>get\<close>

lemma get_mem_hit:
  "map_of (cache b) k = Some (v, e) \<Longrightarrow> \<not> now > e \<Longrightarrow>
     get_mem b k now = (Some v, b\<lparr>cache := move_to_end (cache b) k (v, e)\<rparr>)"
  by (simp add: get_mem_def)

lemma get_mem_expired:
  "map_of (cache b) k = Some (v, e) \<Longrightarrow> now > e \<Longrightarrow>
     get_mem b k now = (None, b\<lparr>cache := dict_del (cache b) k\<rparr>)"
  by (simp add: get_mem_def)

lemma get_mem_absent:
  "map_of (cache b) k = None \<Longrightarrow> get_mem b k now = (None, b)"
  by (simp add: get_mem_def)

lemma get_mem_max_size: "max_size (snd (get_mem b k now)) = max_size b"
  by (simp add: get_mem_def split: option.splits prod.splits)

lemma get_mem_length: "length (cache (snd (get_mem b k now))) \<le> length (cache b)"
  using length_del_present [OF map_of_contains, of "cache b" k] length_del_le [of "cache b" k]
  by (auto simp: get_mem_def move_to_end_def split: option.splits prod.splits)

lemma get_mem_inv: "dict_inv (cache b) \<Longrightarrow> dict_inv (cache (snd (get_mem b k now)))"
  by (auto simp: get_mem_def move_to_end_def dict_inv_del dict_inv_snoc contains_del
           split: option.splits prod.splits)

lemma get_mem_ok: "mem_ok b \<Longrightarrow> mem_ok (snd (get_mem b k now))"
  using get_mem_length [of b k now]
  by (simp add: mem_ok_def size_mem_def get_mem_max_size get_mem_inv)

subsection \<open>set\<close>

text \<open>
  With a capacity of at least 1 the eviction loop never raises: \<open>set\<close> deletes the key,
  keeps the \<open>max_size - 1\<close> most recent of the other entries, and then either the
  conversion of the time to live raises and nothing is stored, or the entry is appended.
\<close>

lemma set_mem_eq:
  assumes "1 \<le> max_size b"
  shows "set_mem fl b k v ttl now =
           (case int_to_float fl ttl of
              Inl e \<Rightarrow>
                (Some e, b\<lparr>cache := drop (length (dict_del (cache b) k) - nat (max_size b - 1))
                                          (dict_del (cache b) k)\<rparr>)
            | Inr d \<Rightarrow>
                (None, b\<lparr>cache := drop (length (dict_del (cache b) k) - nat (max_size b - 1))
                                        (dict_del (cache b) k) @ [(k, v, float_add fl now d)]\<rparr>))"
proof -
  let ?c1 = "dict_del (cache b) k"
  have c1: "(if contains (cache b) k then dict_del (cache b) k else cache b) = ?c1"
    by (simp add: dict_del_absent)
  have ev: "evict_loop ?c1 (max_size b) = (None, drop (length ?c1 - nat (max_size b - 1)) ?c1)"
    using assms by (rule evict_loop_ok)
  have "\<not> contains (drop (length ?c1 - nat (max_size b - 1)) ?c1) k"
    by (rule contains_drop) (rule contains_del)
  then show ?thesis
    unfolding set_mem_def c1 by (simp add: ev dict_setitem_new split: sum.splits)
qed

text \<open>With a capacity of 0 or less the eviction loop empties the dictionary and raises.\<close>

lemma set_mem_KeyError:
  "max_size b \<le> 0 \<Longrightarrow> set_mem fl b k v ttl now = (Some KeyError, b\<lparr>cache := []\<rparr>)"
  by (simp add: set_mem_def evict_loop_raises)

lemma set_mem_ok:
  assumes "1 \<le> max_size b" and "dict_inv (cache b)"
  shows "max_size (snd (set_mem fl b k v ttl now)) = max_size b
       \<and> mem_ok (snd (set_mem fl b k v ttl now))"
proof -
  let ?c1 = "dict_del (cache b) k"
  let ?c2 = "drop (length ?c1 - nat (max_size b - 1)) ?c1"
  have inv2: "dict_inv ?c2"
    by (intro dict_inv_drop dict_inv_del assms(2))
  have inv: "dict_inv (?c2 @ [(k, v, x)])" for x
    by (intro dict_inv_snoc inv2 contains_drop contains_del)
  have "int (length ?c2) + 1 \<le> max_size b"
    using assms(1) by simp
  with inv inv2 show ?thesis
    by (simp add: set_mem_eq [OF assms(1)] mem_ok_def size_mem_def split: sum.splits)
qed

lemma set_mem_raised:
  assumes "1 \<le> max_size b" and "fst (set_mem fl b k v ttl now) = Some e"
  shows "int_to_float fl ttl = Inl e"
  using assms(2) by (simp add: set_mem_eq [OF assms(1)] split: sum.splits)


subsection \<open>delete, clear, and sequences of calls\<close>

lemma delete_mem_ok: "mem_ok b \<Longrightarrow> mem_ok (delete_mem b k)"
  using length_del_le [of "cache b" k]
  by (simp add: mem_ok_def size_mem_def delete_mem_def dict_inv_del)

lemma clear_mem_ok: "0 \<le> max_size b \<Longrightarrow> mem_ok (clear_mem b)"
  by (simp add: mem_ok_def size_mem_def clear_mem_def dict_inv_def)

lemma apply_mem_op_ok:
  assumes "1 \<le> max_size b" and "mem_ok b"
  shows "\<exists>res b'. apply_mem_op fl b x = (res, b') \<and> max_size b' = max_size b \<and> mem_ok b'
           \<and> (\<forall>e. res = Raised e \<longrightarrow> (\<exists>ttl. int_to_float fl ttl = Inl e))"
proof (cases x)
  case (Get k now)
  obtain r b1 where g: "get_mem b k now = (r, b1)" by (cases "get_mem b k now")
  with get_mem_ok [OF assms(2), of k now] get_mem_max_size [of b k now] Get
  show ?thesis by simp
next
  case (Set k v ttl now)
  obtain r b1 where s: "set_mem fl b k v ttl now = (r, b1)" by (cases "set_mem fl b k v ttl now")
  from assms(2) have inv: "dict_inv (cache b)" by (simp add: mem_ok_def)
  from set_mem_ok [OF assms(1) inv, of fl k v ttl now] s
  have ok: "max_size b1 = max_size b" "mem_ok b1" by simp_all
  show ?thesis
  proof (cases r)
    case None
    with s ok Set show ?thesis by simp
  next
    case (Some e)
    with s have "fst (set_mem fl b k v ttl now) = Some e" by simp
    from set_mem_raised [OF assms(1) this] have "\<exists>ttl. int_to_float fl ttl = Inl e" ..
    with Some s ok Set show ?thesis by simp
  qed
next
  case (Delete k)
  then show ?thesis using assms(2) by (simp add: delete_mem_ok) (simp add: delete_mem_def)
next
  case Clear
  then show ?thesis using assms(1) by (simp add: clear_mem_ok) (simp add: clear_mem_def)
qed

lemma run_mem_ops_ok:
  "1 \<le> max_size b \<Longrightarrow> mem_ok b \<Longrightarrow>
     \<exists>ress b'. run_mem_ops fl b xs = (ress, b') \<and> length ress = length xs
        \<and> max_size b' = max_size b \<and> mem_ok b'
        \<and> (\<forall>res\<in>set ress. \<forall>e. res = Raised e \<longrightarrow> (\<exists>ttl. int_to_float fl ttl = Inl e))"
proof (induction xs arbitrary: b)
  case Nil
  then show ?case by simp
next
  case (Cons x xs)
  from apply_mem_op_ok [OF Cons.prems, of fl x] obtain res b1 where
    b1: "apply_mem_op fl b x = (res, b1)" "max_size b1 = max_size b" "mem_ok b1"
        "\<forall>e. res = Raised e \<longrightarrow> (\<exists>ttl. int_to_float fl ttl = Inl e)"
    by blast
  from Cons.prems(1) b1(2) have "1 \<le> max_size b1" by simp
  from Cons.IH [OF this b1(3)] obtain ress b2 where
    b2: "run_mem_ops fl b1 xs = (ress, b2)" "length ress = length xs"
        "max_size b2 = max_size b1" "mem_ok b2"
        "\<forall>res\<in>set ress. \<forall>e. res = Raised e \<longrightarrow> (\<exists>ttl. int_to_float fl ttl = Inl e)"
    by blast
  have "run_mem_ops fl b (x # xs) = (res # ress, b2)" using b1(1) b2(1) by simp
  moreover have "length (res # ress) = length (x # xs)" using b2(2) by simp
  moreover have "max_size b2 = max_size b" using b1(2) b2(3) by simp
  moreover have "\<forall>r\<in>set (res # ress). \<forall>e. r = Raised e \<longrightarrow> (\<exists>ttl. int_to_float fl ttl = Inl e)"
    using b1(4) b2(5) by simp
  ultimately show ?case using b2(4) by blast
qed

text \<open>
  Claim C1. On a backend constructed with \<open>max_size \<ge> 1\<close>, after every finite sequence
  of \<open>get\<close>, \<open>set\<close>, \<open>delete\<close> and \<open>clear\<close> calls, \<open>size()\<close> is at most \<open>max_size\<close>
  (the sequence is arbitrary, so this holds after every prefix, and the run goes on after a
  call that raised). The only exception such a run can meet is that of converting a time
  to live to \<open>float\<close>. A \<open>set\<close> in such a state removes the key, drops entries from the
  least-recently-used end until fewer than \<open>max_size\<close> are left, and then appends the new
  entry at the most-recent end, unless that conversion raises.
\<close>

theorem C1_size_never_exceeds_max_size:
  assumes "1 \<le> m"
  shows "\<exists>ress b. run_mem_ops fl (MemoryCacheBackend_init m) ops = (ress, b)
            \<and> length ress = length ops
            \<and> (\<forall>res\<in>set ress. \<forall>e. res = Raised e \<longrightarrow> (\<exists>ttl. int_to_float fl ttl = Inl e))
            \<and> max_size b = m \<and> size_mem b \<le> m \<and> dict_inv (cache b)
            \<and> (\<forall>k v ttl now. set_mem fl b k v ttl now =
                 (case int_to_float fl ttl of
                    Inl e \<Rightarrow>
                      (Some e, b\<lparr>cache := drop (length (dict_del (cache b) k) - nat (m - 1))
                                                (dict_del (cache b) k)\<rparr>)
                  | Inr d \<Rightarrow>
                      (None, b\<lparr>cache := drop (length (dict_del (cache b) k) - nat (m - 1))
                                              (dict_del (cache b) k)
                                         @ [(k, v, float_add fl now d)]\<rparr>)))"
proof -
  let ?b0 = "MemoryCacheBackend_init m :: ('a, 'b) MemoryCacheBackend"
  have ok0: "mem_ok ?b0"
    using assms by (simp add: mem_ok_def MemoryCacheBackend_init_def size_mem_def dict_inv_def)
  have m0: "max_size ?b0 = m"
    by (simp add: MemoryCacheBackend_init_def)
  from assms m0 have "1 \<le> max_size ?b0" by simp
  from run_mem_ops_ok [OF this ok0, of fl ops] obtain ress b where
    b: "run_mem_ops fl ?b0 ops = (ress, b)" "length ress = length ops"
       "max_size b = max_size ?b0" "mem_ok b"
       "\<forall>res\<in>set ress. \<forall>e. res = Raised e \<longrightarrow> (\<exists>ttl. int_to_float fl ttl = Inl e)"
    by blast
  from b(3) m0 have mb: "max_size b = m" by simp
  with assms have "1 \<le> max_size b" by simp
  then have eq: "set_mem fl b k v ttl now =
          (case int_to_float fl ttl of
             Inl e \<Rightarrow>
               (Some e, b\<lparr>cache := drop (length (dict_del (cache b) k) - nat (max_size b - 1))
                                         (dict_del (cache b) k)\<rparr>)
           | Inr d \<Rightarrow>
               (None, b\<lparr>cache := drop (length (dict_del (cache b) k) - nat (max_size b - 1))
                                       (dict_del (cache b) k)
                                  @ [(k, v, float_add fl now d)]\<rparr>))" for k v ttl now
    by (rule set_mem_eq)
  have "\<forall>k v ttl now. set_mem fl b k v ttl now =
          (case int_to_float fl ttl of
             Inl e \<Rightarrow>
               (Some e, b\<lparr>cache := drop (length (dict_del (cache b) k) - nat (m - 1))
                                         (dict_del (cache b) k)\<rparr>)
           | Inr d \<Rightarrow>
               (None, b\<lparr>cache := drop (length (dict_del (cache b) k) - nat (m - 1))
                                       (dict_del (cache b) k)
                                  @ [(k, v, float_add fl now d)]\<rparr>))"
    using eq unfolding mb by blast
  with b(1,2,4,5) mb show ?thesis unfolding mem_ok_def by blast
qed

theorem C1_size_never_exceeds_max_size_witness:
  "(1::int) \<le> 2
   \<and> run_mem_ops small_float_ops (MemoryCacheBackend_init 2)
        [Set ''a'' (1::nat) 60 0, Set ''b'' 2 60 1, Get ''a'' 2, Set ''c'' 3 60 3,
         Set ''d'' 4 (2 ^ 1024) 4, Delete ''zz'', Get ''c'' 50]
      = ([Done, Done, Got (Some 1), Done, Raised OverflowError, Done, Got (Some 3)],
         \<lparr>cache = [(''c'', 3, 63)], max_size = 2\<rparr>)
   \<and> size_mem \<lparr>cache = [(''c'', 3::nat, 63::real)], max_size = 2\<rparr> \<le> 2"
proof -
  have h: "(1::int) \<le> 2" by simp
  have r: "run_mem_ops small_float_ops (MemoryCacheBackend_init 2)
        [Set ''a'' (1::nat) 60 0, Set ''b'' 2 60 1, Get ''a'' 2, Set ''c'' 3 60 3,
         Set ''d'' 4 (2 ^ 1024) 4, Delete ''zz'', Get ''c'' 50]
      = ([Done, Done, Got (Some 1), Done, Raised OverflowError, Done, Got (Some 3)],
         \<lparr>cache = [(''c'', 3, 63)], max_size = 2\<rparr>)"
    by (simp add: MemoryCacheBackend_init_def set_mem_eq get_mem_def dict_del_def
                  move_to_end_def delete_mem_def contains_def small_float_ops_simps)
  from C1_size_never_exceeds_max_size
         [OF h, where fl = small_float_ops
            and ops = "[Set ''a'' (1::nat) 60 0, Set ''b'' 2 60 1, Get ''a'' 2, Set ''c'' 3 60 3,
                        Set ''d'' 4 (2 ^ 1024) 4, Delete ''zz'', Get ''c'' 50]"]
  have "size_mem \<lparr>cache = [(''c'', 3::nat, 63::real)], max_size = 2\<rparr> \<le> 2"
    unfolding r by simp
  with h r show ?thesis by simp
qed



text \<open>
  Claim C2. With \<open>max_size = 3\<close>: after \<open>set\<close> of the distinct keys \<open>A\<close>, \<open>B\<close>, \<open>C\<close> in
  this order, a \<open>get(A)\<close> that finds \<open>A\<close> unexpired, and a \<open>set\<close> of a fourth key \<open>D\<close>,
  all four \<open>set\<close> calls having returned, the cache holds \<open>C\<close>, \<open>A\<close>, \<open>D\<close> in this
  order: \<open>get(B)\<close> is a miss, and \<open>get\<close> of \<open>A\<close>, \<open>C\<close>, \<open>D\<close> at a reading \<open>t\<close> at which
  their stored expiries have not passed returns the stored values.
\<close>

theorem C2_lru_recency_scenario:
  assumes "distinct [A, B, C, D]"
    and "int_to_float fl ttlA = Inr dA"
    and "int_to_float fl ttlB = Inr dB"
    and "int_to_float fl ttlC = Inr dC"
    and "int_to_float fl ttlD = Inr dD"
    and "\<not> t4 > float_add fl t1 dA"
    and "\<not> t > float_add fl t1 dA"
    and "\<not> t > float_add fl t3 dC"
    and "\<not> t > float_add fl t5 dD"
  shows "\<exists>b. run_mem_ops fl (MemoryCacheBackend_init 3)
                [Set A va ttlA t1, Set B vb ttlB t2, Set C vc ttlC t3, Get A t4, Set D vd ttlD t5]
              = ([Done, Done, Done, Got (Some va), Done], b)
            \<and> cache b = [(C, vc, float_add fl t3 dC), (A, va, float_add fl t1 dA),
                         (D, vd, float_add fl t5 dD)]
            \<and> fst (get_mem b B t) = None
            \<and> fst (get_mem b A t) = Some va
            \<and> fst (get_mem b C t) = Some vc
            \<and> fst (get_mem b D t) = Some vd"
  using assms
  by (auto simp: MemoryCacheBackend_init_def set_mem_eq get_mem_def dict_del_def move_to_end_def)

theorem C2_lru_recency_scenario_witness:
  "distinct [''A'', ''B'', ''C'', ''D'']
   \<and> int_to_float small_float_ops 3600 = Inr 3600
   \<and> \<not> (103::real) > float_add small_float_ops 100 3600
   \<and> \<not> (105::real) > float_add small_float_ops 100 3600
   \<and> \<not> (105::real) > float_add small_float_ops 102 3600
   \<and> \<not> (105::real) > float_add small_float_ops 104 3600
   \<and> run_mem_ops small_float_ops (MemoryCacheBackend_init 3)
        [Set ''A'' (1::nat) 3600 100, Set ''B'' 2 3600 101, Set ''C'' 3 3600 102,
         Get ''A'' 103, Set ''D'' 4 3600 104]
      = ([Done, Done, Done, Got (Some 1), Done],
         \<lparr>cache = [(''C'', 3, 3702), (''A'', 1, 3700), (''D'', 4, 3704)], max_size = 3\<rparr>)
   \<and> fst (get_mem \<lparr>cache = [(''C'', 3::nat, 3702::real), (''A'', 1, 3700), (''D'', 4, 3704)],
                    max_size = 3\<rparr> ''B'' 105) = None
   \<and> fst (get_mem \<lparr>cache = [(''C'', 3::nat, 3702::real), (''A'', 1, 3700), (''D'', 4, 3704)],
                    max_size = 3\<rparr> ''A'' 105) = Some 1"
proof -
  have h1: "distinct [''A'', ''B'', ''C'', ''D'']" by simp
  have h2: "int_to_float small_float_ops 3600 = Inr 3600"
    by (simp add: small_float_ops_simps)
  have h3: "\<not> (103::real) > float_add small_float_ops 100 3600"
    by (simp add: small_float_ops_simps)
  have h4: "\<not> (105::real) > float_add small_float_ops 100 3600"
    by (simp add: small_float_ops_simps)
  have h5: "\<not> (105::real) > float_add small_float_ops 102 3600"
    by (simp add: small_float_ops_simps)
  have h6: "\<not> (105::real) > float_add small_float_ops 104 3600"
    by (simp add: small_float_ops_simps)
  from C2_lru_recency_scenario [OF h1 h2 h2 h2 h2 h3 h4 h5 h6,
         where va = "1::nat" and vb = 2 and vc = 3 and vd = 4 and ?t2.0 = 101]
  obtain b where
    r: "run_mem_ops small_float_ops (MemoryCacheBackend_init 3)
          [Set ''A'' (1::nat) 3600 100, Set ''B'' 2 3600 101, Set ''C'' 3 3600 102,
           Get ''A'' 103, Set ''D'' 4 3600 104]
        = ([Done, Done, Done, Got (Some 1), Done], b)"
    and c: "cache b = [(''C'', 3, float_add small_float_ops 102 3600),
                       (''A'', 1, float_add small_float_ops 100 3600),
                       (''D'', 4, float_add small_float_ops 104 3600)]"
    and g: "fst (get_mem b ''B'' 105) = None" "fst (get_mem b ''A'' 105) = Some 1"
    by blast
  have r0: "run_mem_ops small_float_ops (MemoryCacheBackend_init 3)
          [Set ''A'' (1::nat) 3600 100, Set ''B'' 2 3600 101, Set ''C'' 3 3600 102,
           Get ''A'' 103, Set ''D'' 4 3600 104]
        = ([Done, Done, Done, Got (Some 1), Done],
           \<lparr>cache = [(''C'', 3, 3702), (''A'', 1, 3700), (''D'', 4, 3704)], max_size = 3\<rparr>)"
    by (simp add: MemoryCacheBackend_init_def set_mem_eq get_mem_def dict_del_def
                  move_to_end_def small_float_ops_simps)
  from r r0
  have b: "b = \<lparr>cache = [(''C'', 3, 3702), (''A'', 1, 3700), (''D'', 4, 3704)], max_size = 3\<rparr>"
    by simp
  from h1 h2 h3 h4 h5 h6 r g show ?thesis unfolding b by simp
qed

text \<open>
  Claim C4. A \<open>get\<close> on a key whose stored expiry is strictly before the clock reading
  returns a miss and deletes the entry in the same call: the key is no longer present,
  \<open>size()\<close> is one less, and every later \<open>get\<close> of the key is a miss.
\<close>

theorem C4_expired_entry_removed_on_get:
  assumes "dict_inv (cache b)"
    and "map_of (cache b) key = Some (v, expiry)"
    and "now > expiry"
  shows "\<exists>b'. get_mem b key now = (None, b')
            \<and> cache b' = filter (\<lambda>e. fst e \<noteq> key) (cache b)
            \<and> \<not> contains (cache b') key
            \<and> size_mem b' = size_mem b - 1
            \<and> max_size b' = max_size b
            \<and> (\<forall>now'. get_mem b' key now' = (None, b'))"
proof -
  let ?b' = "b\<lparr>cache := dict_del (cache b) key\<rparr>"
  have g: "get_mem b key now = (None, ?b')"
    using assms(2,3) by (rule get_mem_expired)
  have "contains (cache b) key" using assms(2) by (rule map_of_contains)
  from length_del_inv [OF assms(1) this]
  have sz: "size_mem ?b' = size_mem b - 1" by (simp add: size_mem_def)
  have "map_of (cache ?b') key = None" by (simp add: map_of_del_same)
  then have "get_mem ?b' key now' = (None, ?b')" for now' by (rule get_mem_absent)
  with g sz show ?thesis
    using contains_del [of "cache b" key] by (simp add: dict_del_def)
qed

theorem C4_expired_entry_removed_on_get_witness:
  "dict_inv (cache \<lparr>cache = [(''a'', 1::nat, 10::real), (''b'', 2, 50)], max_size = 5\<rparr>)
   \<and> map_of (cache \<lparr>cache = [(''a'', 1::nat, 10::real), (''b'', 2, 50)], max_size = 5\<rparr>) ''a''
       = Some (1, 10)
   \<and> (11::real) > 10
   \<and> get_mem \<lparr>cache = [(''a'', 1::nat, 10::real), (''b'', 2, 50)], max_size = 5\<rparr> ''a'' 11
       = (None, \<lparr>cache = [(''b'', 2, 50)], max_size = 5\<rparr>)
   \<and> size_mem \<lparr>cache = [(''b'', 2::nat, 50::real)], max_size = 5\<rparr> = 1"
proof -
  have h1: "dict_inv (cache \<lparr>cache = [(''a'', 1::nat, 10::real), (''b'', 2, 50)], max_size = 5\<rparr>)"
    by (simp add: dict_inv_def)
  have h2: "map_of (cache \<lparr>cache = [(''a'', 1::nat, 10::real), (''b'', 2, 50)], max_size = 5\<rparr>)
              ''a'' = Some (1, 10)"
    by simp
  have h3: "(11::real) > 10" by simp
  from C4_expired_entry_removed_on_get [OF h1 h2 h3] h1 h2 h3
  show ?thesis by (auto simp: size_mem_def)
qed

text \<open>
  Claim C9. A \<open>get\<close> on a present, unexpired key returns its value and only moves the
  entry to the most-recent end: every key is still mapped to the same value and expiry,
  the other entries keep their relative order, and the number of entries and
  \<open>max_size\<close> are unchanged.
\<close>

theorem C9_get_hit_changes_only_recency:
  assumes "dict_inv (cache b)"
    and "map_of (cache b) key = Some (v, expiry)"
    and "\<not> now > expiry"
  shows "\<exists>b'. get_mem b key now = (Some v, b')
            \<and> cache b' = filter (\<lambda>e. fst e \<noteq> key) (cache b) @ [(key, v, expiry)]
            \<and> map_of (cache b') = map_of (cache b)
            \<and> filter (\<lambda>e. fst e \<noteq> key) (cache b') = filter (\<lambda>e. fst e \<noteq> key) (cache b)
            \<and> size_mem b' = size_mem b
            \<and> max_size b' = max_size b
            \<and> dict_inv (cache b')"
proof -
  let ?b' = "b\<lparr>cache := move_to_end (cache b) key (v, expiry)\<rparr>"
  have g: "get_mem b key now = (Some v, ?b')"
    using assms(2,3) by (rule get_mem_hit)
  have c: "contains (cache b) key" using assms(2) by (rule map_of_contains)
  have sz: "size_mem ?b' = size_mem b"
    using length_del_inv [OF assms(1) c] by (simp add: size_mem_def move_to_end_def)
  have m: "map_of (cache ?b') = map_of (cache b)"
    using map_of_move_to_end [OF assms(2)] by simp
  have inv: "dict_inv (cache ?b')"
    using dict_inv_snoc [OF dict_inv_del [OF assms(1)] contains_del, of key]
    by (simp add: move_to_end_def)
  from g sz m inv show ?thesis
    by (simp add: move_to_end_def dict_del_def)
qed

theorem C9_get_hit_changes_only_recency_witness:
  "dict_inv (cache \<lparr>cache = [(''a'', 1::nat, 10::real), (''b'', 2, 50), (''c'', 3, 20)],
                    max_size = 5\<rparr>)
   \<and> map_of (cache \<lparr>cache = [(''a'', 1::nat, 10::real), (''b'', 2, 50), (''c'', 3, 20)],
                      max_size = 5\<rparr>) ''a'' = Some (1, 10)
   \<and> \<not> (10::real) > 10
   \<and> get_mem \<lparr>cache = [(''a'', 1::nat, 10::real), (''b'', 2, 50), (''c'', 3, 20)], max_size = 5\<rparr>
        ''a'' 10
       = (Some 1, \<lparr>cache = [(''b'', 2, 50), (''c'', 3, 20), (''a'', 1, 10)], max_size = 5\<rparr>)"
proof -
  have h1: "dict_inv (cache \<lparr>cache = [(''a'', 1::nat, 10::real), (''b'', 2, 50), (''c'', 3, 20)],
                             max_size = 5\<rparr>)"
    by (simp add: dict_inv_def)
  have h2: "map_of (cache \<lparr>cache = [(''a'', 1::nat, 10::real), (''b'', 2, 50), (''c'', 3, 20)],
                           max_size = 5\<rparr>) ''a'' = Some (1, 10)"
    by simp
  have h3: "\<not> (10::real) > 10" by simp
  from C9_get_hit_changes_only_recency [OF h1 h2 h3] h1 h2 h3
  show ?thesis by auto
qed

section \<open>Properties of the facade\<close>

subsection \<open>Key derivation\<close>

lemma sort_perm_eq:
  fixes ls :: "('a::linorder) list"
  assumes "mset ls = mset ls'"
  shows "sort ls = sort ls'"
  using assms by (intro properties_for_sort) simp_all

lemma make_transcript_key_perm:
  assumes "mset xs = mset ys"
  shows "make_transcript_key video_id (Some xs) = make_transcript_key video_id (Some ys)"
proof -
  from assms have s: "sort xs = sort ys" by (rule sort_perm_eq)
  from assms have "length xs = length ys" by (rule mset_eq_length)
  then have e: "(xs \<noteq> []) = (ys \<noteq> [])" by (cases xs; cases ys) simp_all
  show ?thesis unfolding make_transcript_key_def option.case s e ..
qed

text \<open>
  Claim C5. The transcript key does not depend on the order of the language list: the
  lists \<open>["en", "es"]\<close> and \<open>["es", "en"]\<close> give the same key, as do any two lists that
  are permutations of each other; and the key for absent languages (\<open>None\<close>) is the key
  for \<open>["en"]\<close>, namely \<open>transcript:<video_id>:en\<close>.
\<close>

theorem C5_transcript_key_order_insensitive:
  "make_transcript_key video_id (Some [''en'', ''es''])
     = make_transcript_key video_id (Some [''es'', ''en''])
   \<and> (mset ls = mset ls' \<longrightarrow>
        make_transcript_key video_id (Some ls) = make_transcript_key video_id (Some ls'))
   \<and> make_transcript_key video_id None = make_transcript_key video_id (Some [''en''])
   \<and> make_transcript_key video_id None = ''transcript:'' @ video_id @ '':en''"
proof (intro conjI impI)
  have "mset [''en'', ''es''] = mset [''es'', ''en'']" by simp
  then show "make_transcript_key video_id (Some [''en'', ''es''])
               = make_transcript_key video_id (Some [''es'', ''en''])"
    by (rule make_transcript_key_perm)
next
  assume "mset ls = mset ls'"
  then show "make_transcript_key video_id (Some ls) = make_transcript_key video_id (Some ls')"
    by (rule make_transcript_key_perm)
next
  show "make_transcript_key video_id None = make_transcript_key video_id (Some [''en''])"
    by (simp add: make_transcript_key_def)
next
  show "make_transcript_key video_id None = ''transcript:'' @ video_id @ '':en''"
    by (simp add: make_transcript_key_def)
qed

theorem C5_transcript_key_order_insensitive_witness:
  "mset [''fr'', ''en'', ''es''] = mset [''es'', ''fr'', ''en'']
   \<and> make_transcript_key ''abc12345678'' (Some [''fr'', ''en'', ''es''])
       = make_transcript_key ''abc12345678'' (Some [''es'', ''fr'', ''en''])
   \<and> make_transcript_key ''abc12345678'' (Some [''es'', ''fr'', ''en''])
       = ''transcript:abc12345678:en,es,fr''"
proof -
  have m: "mset [''fr'', ''en'', ''es''] = mset [''es'', ''fr'', ''en'']" by simp
  have k: "make_transcript_key ''abc12345678'' (Some [''es'', ''fr'', ''en''])
             = ''transcript:abc12345678:en,es,fr''"
    by code_simp
  from C5_transcript_key_order_insensitive [of "''abc12345678''" "[''fr'', ''en'', ''es'']"
         "[''es'', ''fr'', ''en'']"] m
  have "make_transcript_key ''abc12345678'' (Some [''fr'', ''en'', ''es''])
          = make_transcript_key ''abc12345678'' (Some [''es'', ''fr'', ''en''])"
    by blast
  with m k show ?thesis by blast
qed

subsection \<open>Construction\<close>

text \<open>
  Claim C8. When the cache is enabled, the configured backend is \<open>"redis"\<close> and the
  constructor of the Redis backend raises, the facade is still constructed: its backend
  is an empty memory backend with the configured maximum size and its \<open>backend_type\<close>
  is \<open>"memory"\<close>. (The Redis constructor is only called when the cache is enabled.)
\<close>

theorem C8_redis_failure_falls_back_to_memory:
  assumes "CACHE_ENABLED settings"
    and "CACHE_BACKEND settings = ''redis''"
    and "RedisCacheBackend_init lib (REDIS_URL settings) = Inl e"
  shows "TranscriptCache_init lib settings =
           \<lparr>enabled = True,
            ttl_seconds = CACHE_TTL_SECONDS settings,
            facade_max_size = CACHE_MAX_SIZE settings,
            backend_type = ''memory'',
            backend = Some (Memory (MemoryCacheBackend_init (CACHE_MAX_SIZE settings)))\<rparr>"
  using assms by (simp add: TranscriptCache_init_def)

theorem C8_redis_failure_falls_back_to_memory_witness:
  "CACHE_ENABLED \<lparr>CACHE_ENABLED = True, CACHE_TTL_SECONDS = 3600, CACHE_MAX_SIZE = 1000,
                  CACHE_BACKEND = ''redis'', REDIS_URL = ''redis://localhost:6379''\<rparr>
   \<and> CACHE_BACKEND \<lparr>CACHE_ENABLED = True, CACHE_TTL_SECONDS = 3600, CACHE_MAX_SIZE = 1000,
                  CACHE_BACKEND = ''redis'', REDIS_URL = ''redis://localhost:6379''\<rparr> = ''redis''
   \<and> RedisCacheBackend_init (unreachable_lib :: (unit, nat cache_value) redis_lib)
         ''redis://localhost:6379'' = Inl (Exception ''Connection refused'')
   \<and> (TranscriptCache_init (unreachable_lib :: (unit, nat cache_value) redis_lib)
         \<lparr>CACHE_ENABLED = True, CACHE_TTL_SECONDS = 3600, CACHE_MAX_SIZE = 1000,
          CACHE_BACKEND = ''redis'', REDIS_URL = ''redis://localhost:6379''\<rparr>
        :: (nat, real, unit) TranscriptCache)
       = \<lparr>enabled = True, ttl_seconds = 3600, facade_max_size = 1000, backend_type = ''memory'',
          backend = Some (Memory \<lparr>cache = [], max_size = 1000\<rparr>)\<rparr>"
proof -
  have h1: "CACHE_ENABLED \<lparr>CACHE_ENABLED = True, CACHE_TTL_SECONDS = 3600,
              CACHE_MAX_SIZE = 1000, CACHE_BACKEND = ''redis'',
              REDIS_URL = ''redis://localhost:6379''\<rparr>"
    by simp
  have h2: "CACHE_BACKEND \<lparr>CACHE_ENABLED = True, CACHE_TTL_SECONDS = 3600,
              CACHE_MAX_SIZE = 1000, CACHE_BACKEND = ''redis'',
              REDIS_URL = ''redis://localhost:6379''\<rparr> = ''redis''"
    by simp
  have f: "RedisCacheBackend_init (unreachable_lib :: (unit, nat cache_value) redis_lib)
             ''redis://localhost:6379'' = Inl (Exception ''Connection refused'')"
    by (simp add: RedisCacheBackend_init_def unreachable_lib_def)
  then have h3: "RedisCacheBackend_init (unreachable_lib :: (unit, nat cache_value) redis_lib)
             (REDIS_URL \<lparr>CACHE_ENABLED = True, CACHE_TTL_SECONDS = 3600,
                CACHE_MAX_SIZE = 1000, CACHE_BACKEND = ''redis'',
                REDIS_URL = ''redis://localhost:6379''\<rparr>)
             = Inl (Exception ''Connection refused'')"
    by simp
  from C8_redis_failure_falls_back_to_memory [OF h1 h2 h3] h1 h2 f
  show ?thesis by (simp add: MemoryCacheBackend_init_def)
qed

subsection \<open>The disabled facade\<close>

lemma disabled_get_facade:
  "\<not> enabled self \<Longrightarrow> get_facade lib self video_id languages now = (None, self)"
  by (simp add: get_facade_def)

lemma disabled_get_metadata:
  "\<not> enabled self \<Longrightarrow> get_metadata lib self video_id now = (None, self)"
  by (simp add: get_metadata_def)

lemma disabled_set_facade:
  "\<not> enabled self \<Longrightarrow>
     set_facade fl lib self video_id transcript languages now = (None, self)"
  by (simp add: set_facade_def)

lemma disabled_set_metadata:
  "\<not> enabled self \<Longrightarrow> set_metadata fl lib self video_id metadata now = (None, self)"
  by (simp add: set_metadata_def)

lemma disabled_apply_facade_op:
  "\<not> enabled self \<Longrightarrow>
     \<exists>res. apply_facade_op fl lib self x = (res, self) \<and> (res = Returned None \<or> res = Stored)"
  by (cases x)
     (simp_all add: disabled_get_facade disabled_get_metadata disabled_set_facade
                    disabled_set_metadata)

lemma disabled_run_facade_ops:
  "\<not> enabled self \<Longrightarrow>
     \<exists>ress. run_facade_ops fl lib self xs = (ress, self) \<and> length ress = length xs
          \<and> (\<forall>res\<in>set ress. res = Returned None \<or> res = Stored)"
proof (induction xs)
  case Nil
  then show ?case by simp
next
  case (Cons x xs)
  from disabled_apply_facade_op [OF Cons.prems, of fl lib x] obtain res where
    r: "apply_facade_op fl lib self x = (res, self)" "res = Returned None \<or> res = Stored"
    by blast
  from Cons.IH [OF Cons.prems] obtain ress where
    rs: "run_facade_ops fl lib self xs = (ress, self)" "length ress = length xs"
        "\<forall>res\<in>set ress. res = Returned None \<or> res = Stored"
    by blast
  have "run_facade_ops fl lib self (x # xs) = (res # ress, self)"
    using r(1) rs(1) by simp
  moreover have "length (res # ress) = length (x # xs)" using rs(2) by simp
  moreover have "\<forall>r\<in>set (res # ress). r = Returned None \<or> r = Stored"
    using r(2) rs(3) by simp
  ultimately show ?case by blast
qed

lemma init_disabled:
  "\<not> CACHE_ENABLED settings \<Longrightarrow>
     \<not> enabled (TranscriptCache_init lib settings)
     \<and> backend (TranscriptCache_init lib settings) = None"
  by (simp add: TranscriptCache_init_def)

text \<open>
  Claim C7. On a facade whose \<open>enabled\<close> flag is false, with any backend and any client
  library, \<open>get\<close> and \<open>get_metadata\<close> return a miss and \<open>set\<close> and \<open>set_metadata\<close>
  return, each leaving the whole facade state, backend included, as it was; so does every
  finite sequence of such calls. A facade constructed with \<open>CACHE_ENABLED\<close> false is
  disabled and has no backend, and with no backend \<open>size()\<close> is 0.
\<close>

theorem C7_disabled_facade_is_inert:
  fixes self :: "('m, 't::linorder, 'r) TranscriptCache"
    and lib :: "('r, 'm cache_value) redis_lib"
  assumes "\<not> enabled self"
  shows "get_facade lib self video_id languages now = (None, self)
       \<and> get_metadata lib self video_id now = (None, self)
       \<and> set_facade fl lib self video_id transcript languages now = (None, self)
       \<and> set_metadata fl lib self video_id metadata now = (None, self)
       \<and> (\<exists>ress. run_facade_ops fl lib self ops = (ress, self) \<and> length ress = length ops
              \<and> (\<forall>res\<in>set ress. res = Returned None \<or> res = Stored))
       \<and> (backend self = None \<longrightarrow> size_facade lib self = Some (0, self))
       \<and> (\<not> CACHE_ENABLED settings \<longrightarrow>
            \<not> enabled (TranscriptCache_init lib settings :: ('m, 't, 'r) TranscriptCache)
            \<and> backend (TranscriptCache_init lib settings :: ('m, 't, 'r) TranscriptCache) = None)"
proof -
  have "size_facade lib self = Some (0, self)" if "backend self = None"
    using that by (simp add: size_facade_def)
  moreover have "\<not> enabled (TranscriptCache_init lib settings :: ('m, 't, 'r) TranscriptCache)
      \<and> backend (TranscriptCache_init lib settings :: ('m, 't, 'r) TranscriptCache) = None"
    if "\<not> CACHE_ENABLED settings"
    using that by (rule init_disabled)
  ultimately show ?thesis
    using disabled_run_facade_ops [OF assms, of fl lib ops]
    by (simp add: disabled_get_facade disabled_get_metadata disabled_set_facade
                  disabled_set_metadata assms)
qed

theorem C7_disabled_facade_is_inert_witness:
  "\<not> CACHE_ENABLED \<lparr>CACHE_ENABLED = False, CACHE_TTL_SECONDS = 3600, CACHE_MAX_SIZE = 1000,
                    CACHE_BACKEND = ''memory'', REDIS_URL = ''redis://localhost:6379''\<rparr>
   \<and> (TranscriptCache_init (unreachable_lib :: (unit, nat cache_value) redis_lib)
         \<lparr>CACHE_ENABLED = False, CACHE_TTL_SECONDS = 3600, CACHE_MAX_SIZE = 1000,
          CACHE_BACKEND = ''memory'', REDIS_URL = ''redis://localhost:6379''\<rparr>
        :: (nat, real, unit) TranscriptCache)
       = \<lparr>enabled = False, ttl_seconds = 3600, facade_max_size = 1000, backend_type = ''memory'',
          backend = None\<rparr>
   \<and> run_facade_ops small_float_ops (unreachable_lib :: (unit, nat cache_value) redis_lib)
         \<lparr>enabled = False, ttl_seconds = 3600, facade_max_size = 1000, backend_type = ''memory'',
          backend = None\<rparr>
         [SetTranscript ''video123'' [SnippetObject ''test'' 0 1] (Some [''en'']) 100,
          GetTranscript ''video123'' (Some [''en'']) 101,
          SetMetadata ''video123'' 7 102,
          GetMetadata ''video123'' 103]
       = ([Stored, Returned None, Stored, Returned None],
          \<lparr>enabled = False, ttl_seconds = 3600, facade_max_size = 1000,
           backend_type = ''memory'', backend = None\<rparr>)
   \<and> size_facade (unreachable_lib :: (unit, nat cache_value) redis_lib)
         \<lparr>enabled = False, ttl_seconds = 3600, facade_max_size = 1000, backend_type = ''memory'',
          backend = None :: (nat, real, unit) CacheBackend option\<rparr>
       = Some (0, \<lparr>enabled = False, ttl_seconds = 3600, facade_max_size = 1000,
                   backend_type = ''memory'', backend = None\<rparr>)
   \<and> get_metadata (unreachable_lib :: (unit, nat cache_value) redis_lib)
         \<lparr>enabled = False, ttl_seconds = 3600, facade_max_size = 1000, backend_type = ''memory'',
          backend = Some (Memory \<lparr>cache = [(''metadata:video123'', Metadata 7, 5000::real)],
                                   max_size = 1000\<rparr>)\<rparr>
         ''video123'' 103
       = (None,
          \<lparr>enabled = False, ttl_seconds = 3600, facade_max_size = 1000, backend_type = ''memory'',
           backend = Some (Memory \<lparr>cache = [(''metadata:video123'', Metadata 7, 5000)],
                                    max_size = 1000\<rparr>)\<rparr>)"
proof -
  have h1: "\<not> enabled \<lparr>enabled = False, ttl_seconds = 3600, facade_max_size = 1000,
                          backend_type = ''memory'',
                          backend = None :: (nat, real, unit) CacheBackend option\<rparr>"
    by simp
  have h2: "\<not> enabled \<lparr>enabled = False, ttl_seconds = 3600, facade_max_size = 1000,
                          backend_type = ''memory'',
                          backend = Some (Memory \<lparr>cache = [(''metadata:video123'', Metadata 7, 5000)],
                                                   max_size = 1000\<rparr>)
                                    :: (nat, real, unit) CacheBackend option\<rparr>"
    by simp
  from C7_disabled_facade_is_inert
         [OF h1, where lib = "unreachable_lib :: (unit, nat cache_value) redis_lib"
            and fl = small_float_ops
            and ops = "[SetTranscript ''video123'' [SnippetObject ''test'' 0 1] (Some [''en'']) 100,
                        GetTranscript ''video123'' (Some [''en'']) 101,
                        SetMetadata ''video123'' 7 102,
                        GetMetadata ''video123'' 103]"
            and settings = "\<lparr>CACHE_ENABLED = False, CACHE_TTL_SECONDS = 3600,
                             CACHE_MAX_SIZE = 1000, CACHE_BACKEND = ''memory'',
                             REDIS_URL = ''redis://localhost:6379''\<rparr>"]
       C7_disabled_facade_is_inert
         [OF h2, where lib = "unreachable_lib :: (unit, nat cache_value) redis_lib"
            and video_id = "''video123''" and now = 103]
  show ?thesis
    by (simp add: TranscriptCache_init_def get_facade_def set_facade_def get_metadata_def
                  set_metadata_def size_facade_def)
qed

subsection \<open>cleanup_expired\<close>

lemma dict_inv_unique:
  "dict_inv c \<Longrightarrow> map_of c k = Some x \<Longrightarrow> e \<in> set c \<Longrightarrow> fst e = k \<Longrightarrow> e = (k, x)"
proof -
  assume inv: "dict_inv c" and m: "map_of c k = Some x" and e: "e \<in> set c" "fst e = k"
  from inv have d: "distinct (map fst c)" by (simp add: dict_inv_def)
  have ke: "(k, snd e) = e" using e(2) by auto
  with e(1) have "(k, snd e) \<in> set c" by simp
  with d have "map_of c k = Some (snd e)" by simp
  with m have "snd e = x" by simp
  with ke show ?thesis by simp
qed

lemma readings_Nil: "readings clock i [] = []"
  by (simp add: readings_def)

lemma readings_Cons: "readings clock i (e # c) = (clock i, e) # readings clock (Suc i) c"
  by (simp add: readings_def)

lemma map_of_middle:
  assumes "dict_inv (c1 @ e # c2)"
  shows "map_of (c1 @ e # c2) (fst e) = Some (snd e)"
proof -
  from assms have "distinct (map fst (c1 @ e # c2))" by (simp add: dict_inv_def)
  moreover have "(fst e, snd e) \<in> set (c1 @ e # c2)" by simp
  ultimately show ?thesis by (rule map_of_is_SomeI)
qed

lemma dict_del_middle:
  assumes "dict_inv (c1 @ e # c2)"
  shows "dict_del (c1 @ e # c2) (fst e) = c1 @ c2"
proof -
  from assms have "fst e \<notin> fst ` set c1" "fst e \<notin> fst ` set c2"
    by (auto simp: dict_inv_def)
  then have "\<not> contains c1 (fst e)" "\<not> contains c2 (fst e)"
    by (simp_all add: contains_def)
  then have "dict_del c1 (fst e) = c1" "dict_del c2 (fst e) = c2"
    by (simp_all add: dict_del_absent)
  then show ?thesis by (simp add: dict_del_def)
qed

text \<open>
  The scan with \<open>c1\<close> already tested and kept and \<open>c2\<close> still to test: each entry of
  \<open>c2\<close> meets its own clock reading.
\<close>

lemma cleanup_loop_scan:
  "dict_inv (c1 @ c2) \<Longrightarrow>
   cleanup_loop (map fst c2) clock i (c1 @ c2) n =
     (c1 @ map snd (filter (\<lambda>re. \<not> expired_at re) (readings clock i c2)),
      n + int (length (filter expired_at (readings clock i c2))))"
proof (induction c2 arbitrary: c1 i n)
  case Nil
  then show ?case by (simp add: readings_Nil)
next
  case (Cons e c2)
  obtain k v expiry where e: "e = (k, v, expiry)" by (cases e)
  have m: "map_of (c1 @ e # c2) k = Some (v, expiry)"
    using map_of_middle [OF Cons.prems] e by simp
  show ?case
  proof (cases "clock i > expiry")
    case True
    have del: "dict_del (c1 @ e # c2) k = c1 @ c2"
      using dict_del_middle [OF Cons.prems] e by simp
    have inv: "dict_inv (c1 @ c2)"
      using dict_inv_del [OF Cons.prems, of k] del by simp
    have ex: "expired_at (clock i, e)" using True e by (simp add: expired_at_def)
    have "cleanup_loop (map fst (e # c2)) clock i (c1 @ e # c2) n
            = cleanup_loop (map fst c2) clock (Suc i) (c1 @ c2) (n + 1)"
      using m True del e by simp
    also have "\<dots> = (c1 @ map snd (filter (\<lambda>re. \<not> expired_at re) (readings clock (Suc i) c2)),
                      n + 1 + int (length (filter expired_at (readings clock (Suc i) c2))))"
      by (rule Cons.IH [OF inv])
    finally have r: "cleanup_loop (map fst (e # c2)) clock i (c1 @ e # c2) n
            = (c1 @ map snd (filter (\<lambda>re. \<not> expired_at re) (readings clock (Suc i) c2)),
               n + 1 + int (length (filter expired_at (readings clock (Suc i) c2))))" .
    show ?thesis unfolding r readings_Cons using ex by simp
  next
    case False
    have inv: "dict_inv ((c1 @ [e]) @ c2)" using Cons.prems by simp
    have ex: "\<not> expired_at (clock i, e)" using False e by (simp add: expired_at_def)
    have "cleanup_loop (map fst (e # c2)) clock i (c1 @ e # c2) n
            = cleanup_loop (map fst c2) clock (Suc i) ((c1 @ [e]) @ c2) n"
      using m False e by simp
    also have "\<dots> = ((c1 @ [e]) @ map snd (filter (\<lambda>re. \<not> expired_at re)
                                              (readings clock (Suc i) c2)),
                      n + int (length (filter expired_at (readings clock (Suc i) c2))))"
      by (rule Cons.IH [OF inv])
    finally have r: "cleanup_loop (map fst (e # c2)) clock i (c1 @ e # c2) n
            = ((c1 @ [e]) @ map snd (filter (\<lambda>re. \<not> expired_at re)
                                        (readings clock (Suc i) c2)),
               n + int (length (filter expired_at (readings clock (Suc i) c2))))" .
    show ?thesis unfolding r readings_Cons using ex by simp
  qed
qed

lemma cleanup_loop_all_keys:
  assumes "dict_inv c"
  shows "cleanup_loop (map fst c) clock 0 c 0 =
           (map snd (filter (\<lambda>re. \<not> expired_at re) (readings clock 0 c)),
            int (length (filter expired_at (readings clock 0 c))))"
  using cleanup_loop_scan [of "[]" c clock 0 0] assms by simp

text \<open>Under a clock that reads \<open>now\<close> at every test, the readings tell nothing apart.\<close>

lemma readings_steady: "readings (\<lambda>_. now) i c = map (Pair now) c"
  by (induction c arbitrary: i) (simp_all add: readings_Nil readings_Cons)

lemma steady_kept:
  "map snd (filter (\<lambda>re. \<not> expired_at re) (map (Pair now) c))
     = filter (\<lambda>e. \<not> now > snd (snd e)) c"
  by (induction c) (simp_all add: expired_at_def)

lemma steady_removed:
  "length (filter expired_at (map (Pair now) c)) = length (filter (\<lambda>e. now > snd (snd e)) c)"
  by (induction c) (simp_all add: expired_at_def)

lemma cleanup_loop_steady:
  assumes "dict_inv c"
  shows "cleanup_loop (map fst c) (\<lambda>_. now) 0 c 0 =
           (filter (\<lambda>e. \<not> now > snd (snd e)) c,
            int (length (filter (\<lambda>e. now > snd (snd e)) c)))"
  unfolding cleanup_loop_all_keys [OF assms] readings_steady steady_kept steady_removed ..

text \<open>
  Claim C10 reads "removes exactly those entries whose expiry instant has passed ... so
  that afterwards no stored entry is expired". The scan reads the clock anew for every
  entry. Under a clock that reads 10 and then 11, of two entries that both expire at 10 the
  first is kept and the second removed, and the entry kept is expired at the second
  reading.
\<close>

theorem C10_cleanup_expired_moving_clock_counterexample:
  "cleanup_expired
     \<lparr>enabled = True, ttl_seconds = 3600, facade_max_size = 10, backend_type = ''memory'',
      backend = Some (Memory \<lparr>cache = [(''metadata:a'', Metadata (1::nat), 10::real),
                                        (''metadata:b'', Metadata 2, 10)],
                               max_size = 10\<rparr>) :: (nat, real, unit) CacheBackend option\<rparr>
     ticking_clock
   = (1, \<lparr>enabled = True, ttl_seconds = 3600, facade_max_size = 10, backend_type = ''memory'',
          backend = Some (Memory \<lparr>cache = [(''metadata:a'', Metadata 1, 10)],
                                   max_size = 10\<rparr>)\<rparr>)
   \<and> ticking_clock 0 = 10
   \<and> ticking_clock 1 = 11
   \<and> ticking_clock 1 > 10"
  by (simp add: cleanup_expired_def ticking_clock_def dict_del_def)

text \<open>
  Claim C10, amended. On an enabled facade with a memory backend, \<open>cleanup_expired\<close> tests
  the entries in order, each against a clock reading of its own: it removes exactly the
  entries whose expiry has passed at their reading, returns their number, and keeps the
  others with their values, expiries and order. Under a clock that reads \<open>now\<close>
  throughout the scan these are exactly the entries with \<open>now > expiry\<close>, so that
  afterwards no stored entry is expired at \<open>now\<close>. On a disabled facade, a facade without
  backend or a facade with the Redis backend it returns 0 and leaves the facade as it was.
\<close>

theorem C10_cleanup_expired:
  "(enabled self \<and> backend self = Some (Memory b) \<and> dict_inv (cache b) \<longrightarrow>
      cleanup_expired self clock =
        (int (length (filter expired_at (readings clock 0 (cache b)))),
         self\<lparr>backend := Some (Memory (b\<lparr>cache :=
                  map snd (filter (\<lambda>re. \<not> expired_at re) (readings clock 0 (cache b)))\<rparr>))\<rparr>)
      \<and> cleanup_expired self (\<lambda>_. now) =
        (int (length (filter (\<lambda>e. now > snd (snd e)) (cache b))),
         self\<lparr>backend := Some (Memory (b\<lparr>cache := filter (\<lambda>e. \<not> now > snd (snd e)) (cache b)\<rparr>))\<rparr>))
   \<and> (\<not> enabled self \<or> backend self = None \<or> backend self = Some (Redis rb) \<longrightarrow>
        cleanup_expired self clock = (0, self))"
proof (intro conjI impI)
  assume a: "enabled self \<and> backend self = Some (Memory b) \<and> dict_inv (cache b)"
  then have inv: "dict_inv (cache b)" by simp
  from a show "cleanup_expired self clock =
        (int (length (filter expired_at (readings clock 0 (cache b)))),
         self\<lparr>backend := Some (Memory (b\<lparr>cache :=
                  map snd (filter (\<lambda>re. \<not> expired_at re) (readings clock 0 (cache b)))\<rparr>))\<rparr>)"
    by (simp add: cleanup_expired_def cleanup_loop_all_keys [OF inv])
  from a show "cleanup_expired self (\<lambda>_. now) =
        (int (length (filter (\<lambda>e. now > snd (snd e)) (cache b))),
         self\<lparr>backend := Some (Memory (b\<lparr>cache := filter (\<lambda>e. \<not> now > snd (snd e)) (cache b)\<rparr>))\<rparr>)"
    by (simp add: cleanup_expired_def cleanup_loop_steady [OF inv])
next
  assume "\<not> enabled self \<or> backend self = None \<or> backend self = Some (Redis rb)"
  then show "cleanup_expired self clock = (0, self)"
    by (auto simp: cleanup_expired_def)
qed

theorem C10_cleanup_expired_witness:
  "enabled \<lparr>enabled = True, ttl_seconds = 3600, facade_max_size = 10, backend_type = ''memory'',
            backend = Some (Memory \<lparr>cache = [(''metadata:a'', Metadata (1::nat), 10::real),
                                              (''metadata:b'', Metadata 2, 50),
                                              (''metadata:c'', Metadata 3, 5)],
                                     max_size = 10\<rparr>) :: (nat, real, unit) CacheBackend option\<rparr>
   \<and> dict_inv [(''metadata:a'', Metadata (1::nat), 10::real), (''metadata:b'', Metadata 2, 50),
               (''metadata:c'', Metadata 3, 5)]
   \<and> cleanup_expired
        \<lparr>enabled = True, ttl_seconds = 3600, facade_max_size = 10, backend_type = ''memory'',
         backend = Some (Memory \<lparr>cache = [(''metadata:a'', Metadata (1::nat), 10::real),
                                           (''metadata:b'', Metadata 2, 50),
                                           (''metadata:c'', Metadata 3, 5)],
                                  max_size = 10\<rparr>) :: (nat, real, unit) CacheBackend option\<rparr>
        ticking_clock
       = (1, \<lparr>enabled = True, ttl_seconds = 3600, facade_max_size = 10, backend_type = ''memory'',
              backend = Some (Memory \<lparr>cache = [(''metadata:a'', Metadata 1, 10),
                                                (''metadata:b'', Metadata 2, 50)],
                                       max_size = 10\<rparr>)\<rparr>)
   \<and> cleanup_expired
        \<lparr>enabled = True, ttl_seconds = 3600, facade_max_size = 10, backend_type = ''memory'',
         backend = Some (Memory \<lparr>cache = [(''metadata:a'', Metadata (1::nat), 10::real),
                                           (''metadata:b'', Metadata 2, 50),
                                           (''metadata:c'', Metadata 3, 5)],
                                  max_size = 10\<rparr>) :: (nat, real, unit) CacheBackend option\<rparr>
        (\<lambda>_. 20)
       = (2, \<lparr>enabled = True, ttl_seconds = 3600, facade_max_size = 10, backend_type = ''memory'',
              backend = Some (Memory \<lparr>cache = [(''metadata:b'', Metadata 2, 50)],
                                       max_size = 10\<rparr>)\<rparr>)
   \<and> cleanup_expired
        \<lparr>enabled = False, ttl_seconds = 3600, facade_max_size = 10, backend_type = ''memory'',
         backend = Some (Memory \<lparr>cache = [(''metadata:a'', Metadata (1::nat), 10::real)],
                                  max_size = 10\<rparr>) :: (nat, real, unit) CacheBackend option\<rparr>
        ticking_clock
       = (0, \<lparr>enabled = False, ttl_seconds = 3600, facade_max_size = 10, backend_type = ''memory'',
              backend = Some (Memory \<lparr>cache = [(''metadata:a'', Metadata 1, 10)],
                                       max_size = 10\<rparr>)\<rparr>)"
proof -
  let ?c = "[(''metadata:a'', Metadata (1::nat), 10::real), (''metadata:b'', Metadata 2, 50),
             (''metadata:c'', Metadata 3, 5)]"
  let ?b = "\<lparr>cache = ?c, max_size = 10\<rparr>"
  let ?on = "\<lparr>enabled = True, ttl_seconds = 3600, facade_max_size = 10,
              backend_type = ''memory'',
              backend = Some (Memory ?b) :: (nat, real, unit) CacheBackend option\<rparr>"
  let ?off = "\<lparr>enabled = False, ttl_seconds = 3600, facade_max_size = 10,
               backend_type = ''memory'',
               backend = Some (Memory \<lparr>cache = [(''metadata:a'', Metadata (1::nat), 10::real)],
                                        max_size = 10\<rparr>)
                         :: (nat, real, unit) CacheBackend option\<rparr>"
  have h1: "enabled ?on \<and> backend ?on = Some (Memory ?b) \<and> dict_inv (cache ?b)"
    by (simp add: dict_inv_def)
  have h2: "\<not> enabled ?off \<or> backend ?off = None
            \<or> backend ?off = Some (Redis \<lparr>redis = (), prefix = ''ytcache:''\<rparr>)"
    by simp
  have r: "readings ticking_clock 0 ?c
             = [(10, ''metadata:a'', Metadata 1, 10), (11, ''metadata:b'', Metadata 2, 50),
                (12, ''metadata:c'', Metadata 3, 5)]"
    by (simp add: readings_def ticking_clock_def)
  from C10_cleanup_expired
         [where self = ?on and b = ?b and clock = ticking_clock and now = 20
            and rb = "\<lparr>redis = (), prefix = ''ytcache:''\<rparr>"] h1
  have on: "cleanup_expired ?on ticking_clock =
              (int (length (filter expired_at (readings ticking_clock 0 (cache ?b)))),
               ?on\<lparr>backend := Some (Memory (?b\<lparr>cache :=
                  map snd (filter (\<lambda>re. \<not> expired_at re)
                             (readings ticking_clock 0 (cache ?b)))\<rparr>))\<rparr>)"
    and steady: "cleanup_expired ?on (\<lambda>_. 20) =
              (int (length (filter (\<lambda>e. 20 > snd (snd e)) (cache ?b))),
               ?on\<lparr>backend := Some (Memory (?b\<lparr>cache :=
                  filter (\<lambda>e. \<not> 20 > snd (snd e)) (cache ?b)\<rparr>))\<rparr>)"
    by blast+
  from C10_cleanup_expired
         [where self = ?off and clock = ticking_clock
            and rb = "\<lparr>redis = (), prefix = ''ytcache:''\<rparr>"] h2
  have off: "cleanup_expired ?off ticking_clock = (0, ?off)"
    by blast
  from on have on': "cleanup_expired ?on ticking_clock =
      (1, \<lparr>enabled = True, ttl_seconds = 3600, facade_max_size = 10, backend_type = ''memory'',
           backend = Some (Memory \<lparr>cache = [(''metadata:a'', Metadata 1, 10),
                                             (''metadata:b'', Metadata 2, 50)],
                                    max_size = 10\<rparr>)\<rparr>)"
    using r by (simp add: expired_at_def)
  from steady have steady': "cleanup_expired ?on (\<lambda>_. 20) =
      (2, \<lparr>enabled = True, ttl_seconds = 3600, facade_max_size = 10, backend_type = ''memory'',
           backend = Some (Memory \<lparr>cache = [(''metadata:b'', Metadata 2, 50)],
                                    max_size = 10\<rparr>)\<rparr>)"
    by simp
  from h1 on' steady' off show ?thesis by simp
qed

subsection \<open>Exceptions of the set operations\<close>

text \<open>
  Claim C6 says that no facade operation raises. On a facade constructed with the cache
  enabled, the memory backend and \<open>CACHE_MAX_SIZE = 0\<close>, \<open>set_metadata\<close> and \<open>set\<close> raise
  \<open>KeyError\<close>: the eviction loop calls \<open>popitem\<close> on the empty dictionary.
\<close>

theorem C6_set_raises_KeyError_at_max_size_zero:
  fixes lib :: "('r, 'm cache_value) redis_lib" and now :: "'t::linorder"
  shows "set_metadata fl lib
     (TranscriptCache_init lib
        \<lparr>CACHE_ENABLED = True, CACHE_TTL_SECONDS = 3600, CACHE_MAX_SIZE = 0,
         CACHE_BACKEND = ''memory'', REDIS_URL = ''redis://localhost:6379''\<rparr>)
     ''abc12345678'' metadata now
     = (Some KeyError,
        TranscriptCache_init lib
          \<lparr>CACHE_ENABLED = True, CACHE_TTL_SECONDS = 3600, CACHE_MAX_SIZE = 0,
           CACHE_BACKEND = ''memory'', REDIS_URL = ''redis://localhost:6379''\<rparr>)
   \<and> set_facade fl lib
       (TranscriptCache_init lib
          \<lparr>CACHE_ENABLED = True, CACHE_TTL_SECONDS = 3600, CACHE_MAX_SIZE = 0,
           CACHE_BACKEND = ''memory'', REDIS_URL = ''redis://localhost:6379''\<rparr>)
       ''abc12345678'' [SnippetDict \<lparr>snippet_text = ''hi'', start = 0, duration = 1\<rparr>]
       (Some [''en'']) now
     = (Some KeyError,
        TranscriptCache_init lib
          \<lparr>CACHE_ENABLED = True, CACHE_TTL_SECONDS = 3600, CACHE_MAX_SIZE = 0,
           CACHE_BACKEND = ''memory'', REDIS_URL = ''redis://localhost:6379''\<rparr>)"
  by (simp add: set_metadata_def set_facade_def TranscriptCache_init_def
                MemoryCacheBackend_init_def set_mem_KeyError)

theorem C6_set_raises_KeyError_at_max_size_zero_witness:
  "(TranscriptCache_init (unreachable_lib :: (unit, nat cache_value) redis_lib)
     \<lparr>CACHE_ENABLED = True, CACHE_TTL_SECONDS = 3600, CACHE_MAX_SIZE = 0,
      CACHE_BACKEND = ''memory'', REDIS_URL = ''redis://localhost:6379''\<rparr>
    :: (nat, real, unit) TranscriptCache)
     = \<lparr>enabled = True, ttl_seconds = 3600, facade_max_size = 0, backend_type = ''memory'',
        backend = Some (Memory \<lparr>cache = [], max_size = 0\<rparr>)\<rparr>
   \<and> fst (set_metadata small_float_ops (unreachable_lib :: (unit, nat cache_value) redis_lib)
       \<lparr>enabled = True, ttl_seconds = 3600, facade_max_size = 0, backend_type = ''memory'',
        backend = Some (Memory \<lparr>cache = [], max_size = 0\<rparr>)\<rparr>
       ''abc12345678'' 7 100) = Some KeyError
   \<and> fst (set_facade small_float_ops (unreachable_lib :: (unit, nat cache_value) redis_lib)
       \<lparr>enabled = True, ttl_seconds = 3600, facade_max_size = 0, backend_type = ''memory'',
        backend = Some (Memory \<lparr>cache = [], max_size = 0\<rparr>)\<rparr>
       ''abc12345678'' [SnippetDict \<lparr>snippet_text = ''hi'', start = 0, duration = 1\<rparr>]
       (Some [''en'']) 100) = Some KeyError"
  using C6_set_raises_KeyError_at_max_size_zero
          [where lib = "unreachable_lib :: (unit, nat cache_value) redis_lib"
             and fl = small_float_ops and metadata = 7 and now = 100]
  by (simp add: TranscriptCache_init_def MemoryCacheBackend_init_def)

text \<open>
  The \<open>set\<close> operations raise exactly on an enabled facade with a memory backend, when
  \<open>max_size \<le> 0\<close> or the conversion of the time to live to \<open>float\<close> raises.
\<close>

lemma set_mem_raises_iff:
  "fst (set_mem fl b key v ttl now) \<noteq> None
     \<longleftrightarrow> max_size b \<le> 0 \<or> (\<exists>e. int_to_float fl ttl = Inl e)"
proof (cases "max_size b \<le> 0")
  case True
  then show ?thesis by (simp add: set_mem_KeyError)
next
  case False
  then have "1 \<le> max_size b" by simp
  from set_mem_eq [OF this] False show ?thesis by (simp split: sum.splits)
qed

lemma backend_set_raises_iff:
  "fst (backend_set fl lib be key v ttl now) \<noteq> None
     \<longleftrightarrow> (\<exists>b. be = Memory b \<and> (max_size b \<le> 0 \<or> (\<exists>e. int_to_float fl ttl = Inl e)))"
proof (cases be)
  case (Memory b)
  from set_mem_raises_iff [of fl b key v ttl now] Memory show ?thesis
    by (auto split: prod.splits)
next
  case (Redis b)
  then show ?thesis by simp
qed

lemma set_metadata_raises_iff:
  "fst (set_metadata fl lib self video_id metadata now) \<noteq> None
     \<longleftrightarrow> enabled self \<and> (\<exists>b. backend self = Some (Memory b)
            \<and> (max_size b \<le> 0 \<or> (\<exists>e. int_to_float fl (ttl_seconds self) = Inl e)))"
proof (cases "\<not> enabled self \<or> backend self = None")
  case True
  then show ?thesis by (auto simp: set_metadata_def)
next
  case False
  then obtain be where be: "enabled self" "backend self = Some be" by auto
  from backend_set_raises_iff
         [of fl lib be "make_metadata_key video_id" "Metadata metadata" "ttl_seconds self" now] be
  show ?thesis by (auto simp: set_metadata_def split: prod.splits)
qed

lemma set_facade_raises_iff:
  "fst (set_facade fl lib self video_id transcript languages now) \<noteq> None
     \<longleftrightarrow> enabled self \<and> (\<exists>b. backend self = Some (Memory b)
            \<and> (max_size b \<le> 0 \<or> (\<exists>e. int_to_float fl (ttl_seconds self) = Inl e)))"
proof (cases "\<not> enabled self \<or> backend self = None")
  case True
  then show ?thesis by (auto simp: set_facade_def)
next
  case False
  then obtain be where be: "enabled self" "backend self = Some be" by auto
  from backend_set_raises_iff
         [of fl lib be "make_transcript_key video_id languages"
             "TranscriptData (map segment_to_dict transcript)" "ttl_seconds self" now] be
  show ?thesis by (auto simp: set_facade_def Let_def split: prod.splits)
qed

end
